theory Spec2Isabelle
  imports
    Main
    "HOL-Library.Sublist"
    "HOL-Library.Char_ord"
    "HOL-Library.List_Lexorder"
    "HOL-Library.Multiset"
begin

section \<open>Job Scout: the feed pipeline of \<open>app.py\<close>\<close>

text \<open>
  The program polls syndication feeds, keeps the entries that are recent and match the
  keyword lists, turns them into posting dictionaries, removes duplicates, sorts the
  result and serves it over HTTP or prints it once on the command line.

  Conventions of the embedding:
  \<^item> a Python \<open>str\<close> is a \<open>string\<close>; a character is a code point below 256, and
    strings are compared as Python compares them, code point by code point;
  \<^item> Python's \<open>int\<close> is \<open>int\<close>;
  \<^item> an exception is a value of \<open>exn\<close>, and a call that can raise returns
    \<open>exn + 'a\<close> with \<open>Inl\<close> for the raise;
  \<^item> what the program reads from outside (the environment, the feeds file, the feed
    parser, the URL parser, the clock) is a field of the record \<open>world\<close>.
\<close>

subsection \<open>Exceptions\<close>

datatype exn =
    OverflowError string
  | ValueError string
  | KeyError string
  | OSError string
  | FeedException string

text \<open>\<open>str(ex)\<close>, as interpolated into the message of a failed feed.\<close>

fun str_exn :: "exn \<Rightarrow> string" where
  "str_exn (OverflowError m) = m"
| "str_exn (ValueError m) = m"
| "str_exn (KeyError k) = [CHR 0x27] @ k @ [CHR 0x27]"
| "str_exn (OSError m) = m"
| "str_exn (FeedException m) = m"

subsection \<open>String operations\<close>

text \<open>
  \<open>str.isspace\<close> on one character, for the code points below 256: the ASCII
  white space, the four information separators, NEL and the no-break space.
\<close>

definition isspace :: "char \<Rightarrow> bool" where
  "isspace c = (of_char c \<in> {9, 10, 11, 12, 13, 28, 29, 30, 31, 32, 133, 160 :: nat})"

text \<open>\<open>str.strip()\<close>: leading and trailing white space removed.\<close>

definition strip :: "string \<Rightarrow> string" where
  "strip s = rev (dropWhile isspace (rev (dropWhile isspace s)))"

text \<open>\<open>str.split(sep)\<close> for a separator of one character; \<open>"".split(",") == [""]\<close>.\<close>

fun split :: "char \<Rightarrow> string \<Rightarrow> string list" where
  "split sep [] = [[]]"
| "split sep (c # cs) =
     (if c = sep then [] # split sep cs
      else (case split sep cs of
              [] \<Rightarrow> [[c]]
            | w # ws \<Rightarrow> (c # w) # ws))"

text \<open>\<open>sep.join(xs)\<close>.\<close>

fun join :: "string \<Rightarrow> string list \<Rightarrow> string" where
  "join sep [] = []"
| "join sep [x] = x"
| "join sep (x # y # ys) = x @ sep @ join sep (y # ys)"

text \<open>
  \<open>str.lower()\<close> on one character, for the code points below 256: the letters A to Z
  and the capital letters of Latin-1 (0xC0 to 0xDE without the multiplication sign).
\<close>

definition lower_char :: "char \<Rightarrow> char" where
  "lower_char c =
     (let n = (of_char c :: nat) in
      if (65 \<le> n \<and> n \<le> 90) \<or> (192 \<le> n \<and> n \<le> 222 \<and> n \<noteq> 215)
      then char_of (n + 32) else c)"

definition lower :: "string \<Rightarrow> string" where
  "lower s = map lower_char s"

text \<open>\<open>s.startswith(p)\<close>.\<close>

fun startswith :: "string \<Rightarrow> string \<Rightarrow> bool" where
  "startswith s [] = True"
| "startswith [] (p # ps) = False"
| "startswith (c # cs) (p # ps) = (c = p \<and> startswith cs ps)"

text \<open>\<open>k in t\<close> on strings: \<open>k\<close> occurs in \<open>t\<close> as a contiguous run.\<close>

fun str_in :: "string \<Rightarrow> string \<Rightarrow> bool" where
  "str_in k [] = (k = [])"
| "str_in k (c # cs) = (startswith (c # cs) k \<or> str_in k cs)"

subsection \<open>The outside world\<close>

text \<open>
  \<open>published_parsed\<close> and \<open>updated_parsed\<close> are \<open>time.struct_time\<close> values made by
  the feed parser; the program reads the first six fields, each a Python \<open>int\<close>. The
  fields need not be those of a calendar time (a year 10000, a second 61).
\<close>

record struct_time =
  tm_year :: int
  tm_mon :: int
  tm_mday :: int
  tm_hour :: int
  tm_min :: int
  tm_sec :: int

text \<open>
  A feed entry. The program reads every attribute with a default (\<open>getattr\<close>,
  \<open>hasattr\<close>), so an attribute is optional: \<open>None\<close> is an attribute that is missing
  (or, for the two dates, present with the value \<open>None\<close>).
\<close>

record entry =
  e_title :: "string option"
  e_summary :: "string option"
  e_description :: "string option"
  e_link :: "string option"
  published_parsed :: "struct_time option"
  updated_parsed :: "struct_time option"

text \<open>
  What \<open>feedparser.parse\<close> returns: the entries it found and, when the fetch or the
  parse went wrong without an exception leaving the call, the exception it recorded
  (\<open>bozo_exception\<close>; \<open>None\<close> when \<open>bozo\<close> is 0). The program reads \<open>entries\<close> only.
\<close>

record parsed =
  entries :: "entry list"
  bozo_exception :: "exn option"

text \<open>What \<open>os.path.exists\<close> and \<open>open\<close> find at a path.\<close>

datatype file_state = Missing | Unreadable string | Lines "string list"

text \<open>
  \<^item> \<open>environ\<close>: the process environment (\<open>os.getenv\<close>);
  \<^item> \<open>files\<close>: the file system; \<open>Lines ls\<close> is a text file whose lines, as the
    iteration over the file yields them, are \<open>ls\<close>;
  \<^item> \<open>py_int\<close>: \<open>int(s)\<close>, \<open>None\<close> where it raises \<open>ValueError\<close>;
  \<^item> \<open>feedparser_parse\<close>: \<open>feedparser.parse(url)\<close>, or the exception raised;
  \<^item> \<open>urlparse_netloc\<close>: \<open>urlparse(link).netloc\<close>, or the \<open>ValueError\<close> raised;
  \<^item> \<open>utcnow\<close>: \<open>datetime.now(timezone.utc)\<close>, in microseconds since
    0001-01-01T00:00:00 UTC, read as one instant for the whole run.
\<close>

record world =
  environ :: "string \<rightharpoonup> string"
  files :: "string \<Rightarrow> file_state"
  py_int :: "string \<Rightarrow> int option"
  feedparser_parse :: "string \<Rightarrow> exn + parsed"
  urlparse_netloc :: "string \<Rightarrow> exn + string"
  utcnow :: int

definition getenv :: "world \<Rightarrow> string \<Rightarrow> string \<Rightarrow> string" where
  "getenv w name dflt = (case environ w name of None \<Rightarrow> dflt | Some v \<Rightarrow> v)"

subsection \<open>Configuration\<close>

definition DEFAULT_KEYWORDS :: "string list" where
  "DEFAULT_KEYWORDS =
     [''devops'', ''cloud engineer'', ''site reliability'', ''sre'',
      ''platform engineer'', ''infrastructure'']"

definition parse_env_list :: "string \<Rightarrow> string list" where
  "parse_env_list v =
     (if v = [] then []
      else map strip (filter (\<lambda>x. strip x \<noteq> []) (split CHR '','' v)))"

definition load_feeds_from_file :: "world \<Rightarrow> string \<Rightarrow> exn + string list" where
  "load_feeds_from_file w path =
     (if path = [] then Inr []
      else (case files w path of
              Missing \<Rightarrow> Inr []
            | Unreadable m \<Rightarrow> Inl (OSError m)
            | Lines ls \<Rightarrow>
                Inr (map strip
                       (filter (\<lambda>l. strip l \<noteq> [] \<and> \<not> startswith (strip l) ''#'') ls))))"

text \<open>The dictionary \<open>get_config\<close> returns, one field for each of its keys.\<close>

record config =
  cfg_feeds :: "string list"
  cfg_keywords :: "string list"
  cfg_exclude :: "string list"
  cfg_hours :: int

text \<open>
  Lines 40 to 42 of \<open>get_config\<close>: the explicit list if it has an entry, the feeds
  file otherwise.
\<close>

definition resolve_feeds :: "world \<Rightarrow> string \<Rightarrow> string \<Rightarrow> exn + string list" where
  "resolve_feeds w feed_urls_env feeds_file =
     (let fs = parse_env_list feed_urls_env in
      if fs = [] then load_feeds_from_file w feeds_file else Inr fs)"

definition get_config :: "world \<Rightarrow> exn + config" where
  "get_config w =
     (let feed_urls_env = getenv w ''FEED_URLS'' [];
          feeds_file = getenv w ''FEEDS_FILE'' ''feeds.example.txt'';
          keywords_env = getenv w ''KEYWORDS'' (join '','' DEFAULT_KEYWORDS);
          exclude_env = getenv w ''EXCLUDE_KEYWORDS'' []
      in case py_int w (getenv w ''HOURS'' ''24'') of
           None \<Rightarrow> Inl (ValueError ''invalid literal for int()'')
         | Some hours_env \<Rightarrow>
             (case resolve_feeds w feed_urls_env feeds_file of
                Inl x \<Rightarrow> Inl x
              | Inr fs \<Rightarrow>
                  Inr \<lparr> cfg_feeds = fs,
                        cfg_keywords = map lower (parse_env_list keywords_env),
                        cfg_exclude = map lower (parse_env_list exclude_env),
                        cfg_hours = hours_env \<rparr>))"

subsection \<open>Time\<close>

text \<open>
  A \<open>datetime\<close> in UTC is the number of microseconds since 0001-01-01T00:00:00, which
  orders datetimes as Python compares them. The day count follows the \<open>datetime\<close>
  module (\<open>_days_before_year\<close>, \<open>_days_before_month\<close>, \<open>_ymd2ord\<close>).
\<close>

definition is_leap :: "int \<Rightarrow> bool" where
  "is_leap y = (y mod 4 = 0 \<and> (y mod 100 \<noteq> 0 \<or> y mod 400 = 0))"

definition days_before_year :: "int \<Rightarrow> int" where
  "days_before_year year =
     (let y = year - 1 in y * 365 + y div 4 - y div 100 + y div 400)"

definition DAYS_BEFORE_MONTH :: "int list" where
  "DAYS_BEFORE_MONTH = [0, 0, 31, 59, 90, 120, 151, 181, 212, 243, 273, 304, 334]"

definition days_before_month :: "int \<Rightarrow> int \<Rightarrow> int" where
  "days_before_month year month =
     DAYS_BEFORE_MONTH ! nat month + (if month > 2 \<and> is_leap year then 1 else 0)"

definition ymd2ord :: "int \<Rightarrow> int \<Rightarrow> int \<Rightarrow> int" where
  "ymd2ord year month day = days_before_year year + days_before_month year month + day"

text \<open>
  The instant of the datetime with the fields of \<open>t\<close>, in microseconds since
  0001-01-01T00:00:00 UTC.
\<close>

definition datetime_utc :: "struct_time \<Rightarrow> int" where
  "datetime_utc t =
     (((ymd2ord (tm_year t) (tm_mon t) (tm_mday t) - 1) * 86400
        + tm_hour t * 3600 + tm_min t * 60 + tm_sec t) * 1000000)"

text \<open>\<open>datetime.max\<close> is the last microsecond of the year 9999, day 3652059.\<close>

definition MAX_US :: int where
  "MAX_US = 3652059 * 86400 * 1000000"

text \<open>The decimal digit of the units of \<open>n\<close>.\<close>

definition digit :: "int \<Rightarrow> char" where
  "digit n = char_of (48 + n mod 10)"

text \<open>\<open>str(n)\<close> of an integer: its decimal digits, after a minus sign when it is negative.\<close>

function str_digits :: "int \<Rightarrow> string" where
  "str_digits n = (if n < 10 then [digit n] else str_digits (n div 10) @ [digit n])"
  by pat_completeness auto
termination
  by (relation "measure nat") auto

declare str_digits.simps [simp del]

definition str_int :: "int \<Rightarrow> string" where
  "str_int n = (if n < 0 then ''-'' @ str_digits (- n) else str_digits n)"

text \<open>
  \<open>timedelta(hours=h)\<close>, in microseconds: the number of whole days has to fit a C
  \<open>int\<close> and to lie within 999999999 days of zero, or the constructor raises
  \<open>OverflowError\<close> (the messages are those of CPython 3.11).
\<close>

definition timedelta_hours :: "int \<Rightarrow> exn + int" where
  "timedelta_hours h =
     (let days = h div 24 in
      if days < - 2147483648 \<or> 2147483647 < days then
        Inl (OverflowError ''Python int too large to convert to C int'')
      else if days < - 999999999 \<or> 999999999 < days then
        Inl (OverflowError (''days='' @ str_int days @ ''; must have magnitude <= 999999999''))
      else Inr (h * 3600000000))"

text \<open>
  \<open>dt - timedelta(hours=h)\<close>: the datetime \<open>h\<close> hours earlier, or
  \<open>OverflowError\<close> when that is no datetime (before the year 1 or after the year
  9999).
\<close>

definition minus_hours :: "int \<Rightarrow> int \<Rightarrow> exn + int" where
  "minus_hours dt h =
     (case timedelta_hours h of
        Inl x \<Rightarrow> Inl x
      | Inr td \<Rightarrow>
          (let r = dt - td in
           if r < 0 \<or> MAX_US \<le> r then Inl (OverflowError ''date value out of range'')
           else Inr r))"

text \<open>\<open>dt.isoformat()\<close> of a datetime built from six fields in UTC.\<close>

definition pad2 :: "int \<Rightarrow> string" where
  "pad2 n = [digit (n div 10), digit n]"

definition pad4 :: "int \<Rightarrow> string" where
  "pad4 n = [digit (n div 1000), digit (n div 100), digit (n div 10), digit n]"

definition isoformat :: "struct_time \<Rightarrow> string" where
  "isoformat t =
     pad4 (tm_year t) @ ''-'' @ pad2 (tm_mon t) @ ''-'' @ pad2 (tm_mday t) @ ''T'' @
     pad2 (tm_hour t) @ '':'' @ pad2 (tm_min t) @ '':'' @ pad2 (tm_sec t) @ ''+00:00''"

text \<open>
  The fields of a calendar time, which are the fields the constructor \<open>datetime\<close>
  accepts; \<open>DAYS_IN_MONTH\<close> and \<open>days_in_month\<close> are those of the \<open>datetime\<close>
  module.
\<close>

definition DAYS_IN_MONTH :: "int list" where
  "DAYS_IN_MONTH = [-1, 31, 28, 31, 30, 31, 30, 31, 31, 30, 31, 30, 31]"

definition days_in_month :: "int \<Rightarrow> int \<Rightarrow> int" where
  "days_in_month year month =
     (if month = 2 \<and> is_leap year then 29 else DAYS_IN_MONTH ! nat month)"

definition valid_time :: "struct_time \<Rightarrow> bool" where
  "valid_time t =
     (1 \<le> tm_year t \<and> tm_year t \<le> 9999 \<and> 1 \<le> tm_mon t \<and> tm_mon t \<le> 12
      \<and> 1 \<le> tm_mday t \<and> tm_mday t \<le> days_in_month (tm_year t) (tm_mon t)
      \<and> 0 \<le> tm_hour t \<and> tm_hour t \<le> 23 \<and> 0 \<le> tm_min t \<and> tm_min t \<le> 59
      \<and> 0 \<le> tm_sec t \<and> tm_sec t \<le> 59)"

text \<open>The order of two calendar times, field by field from the year down.\<close>

definition fields_le :: "struct_time \<Rightarrow> struct_time \<Rightarrow> bool" where
  "fields_le a b =
     (tm_year a < tm_year b \<or> tm_year a = tm_year b \<and>
     (tm_mon a < tm_mon b \<or> tm_mon a = tm_mon b \<and>
     (tm_mday a < tm_mday b \<or> tm_mday a = tm_mday b \<and>
     (tm_hour a < tm_hour b \<or> tm_hour a = tm_hour b \<and>
     (tm_min a < tm_min b \<or> tm_min a = tm_min b \<and> tm_sec a \<le> tm_sec b)))))"

definition fields_less :: "struct_time \<Rightarrow> struct_time \<Rightarrow> bool" where
  "fields_less a b =
     (tm_year a < tm_year b \<or> tm_year a = tm_year b \<and>
     (tm_mon a < tm_mon b \<or> tm_mon a = tm_mon b \<and>
     (tm_mday a < tm_mday b \<or> tm_mday a = tm_mday b \<and>
     (tm_hour a < tm_hour b \<or> tm_hour a = tm_hour b \<and>
     (tm_min a < tm_min b \<or> tm_min a = tm_min b \<and> tm_sec a < tm_sec b)))))"

text \<open>
  The constructor \<open>datetime\<close> of CPython takes each of its arguments as a C \<open>int\<close>
  (32 bits, through a C \<open>long\<close> of 64 bits), from the left, and raises
  \<open>OverflowError\<close> at the first that does not fit.
\<close>

definition as_c_int :: "int \<Rightarrow> exn option" where
  "as_c_int n =
     (if n < - 9223372036854775808 \<or> 9223372036854775807 < n then
        Some (OverflowError ''Python int too large to convert to C long'')
      else if 2147483647 < n then
        Some (OverflowError ''signed integer is greater than maximum'')
      else if n < - 2147483648 then
        Some (OverflowError ''signed integer is less than minimum'')
      else None)"

fun first_raised :: "exn option list \<Rightarrow> exn option" where
  "first_raised [] = None"
| "first_raised (None # rs) = first_raised rs"
| "first_raised (Some x # rs) = Some x"

text \<open>
  \<open>datetime(*t[:6], tzinfo=timezone.utc)\<close>: once the six arguments are converted, the
  constructor checks the date fields, then the time fields, and raises \<open>ValueError\<close>
  at the first that is out of range (the messages are those of CPython 3.11).
\<close>

definition datetime :: "struct_time \<Rightarrow> exn + int" where
  "datetime t =
     (case first_raised (map as_c_int [tm_year t, tm_mon t, tm_mday t,
                                       tm_hour t, tm_min t, tm_sec t]) of
        Some x \<Rightarrow> Inl x
      | None \<Rightarrow>
      if \<not> (1 \<le> tm_year t \<and> tm_year t \<le> 9999) then
        Inl (ValueError (''year '' @ str_int (tm_year t) @ '' is out of range''))
      else if \<not> (1 \<le> tm_mon t \<and> tm_mon t \<le> 12) then
        Inl (ValueError ''month must be in 1..12'')
      else if \<not> (1 \<le> tm_mday t \<and> tm_mday t \<le> days_in_month (tm_year t) (tm_mon t)) then
        Inl (ValueError ''day is out of range for month'')
      else if \<not> (0 \<le> tm_hour t \<and> tm_hour t \<le> 23) then
        Inl (ValueError ''hour must be in 0..23'')
      else if \<not> (0 \<le> tm_min t \<and> tm_min t \<le> 59) then
        Inl (ValueError ''minute must be in 0..59'')
      else if \<not> (0 \<le> tm_sec t \<and> tm_sec t \<le> 59) then
        Inl (ValueError ''second must be in 0..59'')
      else Inr (datetime_utc t))"

text \<open>\<open>datetime(*t[:6], tzinfo=timezone.utc).isoformat()\<close>.\<close>

definition datetime_isoformat :: "struct_time \<Rightarrow> exn + string" where
  "datetime_isoformat t =
     (case datetime t of Inl x \<Rightarrow> Inl x | Inr dt \<Rightarrow> Inr (isoformat t))"

subsection \<open>The entry filter\<close>

definition within_hours :: "world \<Rightarrow> struct_time option \<Rightarrow> int \<Rightarrow> exn + bool" where
  "within_hours w pp h =
     (case pp of
        None \<Rightarrow> Inr False
      | Some t \<Rightarrow>
          (case datetime t of
             Inl x \<Rightarrow> Inl x
           | Inr published_dt \<Rightarrow>
               (case minus_hours (utcnow w) h of
                  Inl x \<Rightarrow> Inl x
                | Inr cutoff \<Rightarrow> Inr (cutoff \<le> published_dt))))"

definition match_keywords :: "string \<Rightarrow> string list \<Rightarrow> bool" where
  "match_keywords text ks =
     (let t = lower text in
      if ks \<noteq> [] then list_ex (\<lambda>k. str_in k t) ks else True)"

definition match_exclusions :: "string \<Rightarrow> string list \<Rightarrow> bool" where
  "match_exclusions text ex =
     (let t = lower text in
      if ex \<noteq> [] then list_ex (\<lambda>k. str_in k t) ex else False)"

subsection \<open>Result items\<close>

text \<open>
  A result is a dictionary of one of two shapes: the posting \<open>normalize_entry\<close> builds
  (keys \<open>title\<close>, \<open>link\<close>, \<open>summary\<close>, \<open>published\<close>, \<open>source\<close>) or the record of a
  failed feed (the one key \<open>error\<close>).
\<close>

record posting =
  title :: string
  link :: string
  summary :: string
  published :: "string option"
  source :: string

datatype item = Posting posting | FeedError string

text \<open>\<open>r.get(key)\<close>: \<open>None\<close> for a key the dictionary does not have.\<close>

fun get_link :: "item \<Rightarrow> string option" where
  "get_link (Posting p) = Some (link p)"
| "get_link (FeedError m) = None"

fun get_title :: "item \<Rightarrow> string option" where
  "get_title (Posting p) = Some (title p)"
| "get_title (FeedError m) = None"

fun get_published :: "item \<Rightarrow> string option" where
  "get_published (Posting p) = published p"
| "get_published (FeedError m) = None"

text \<open>\<open>it[key]\<close>: \<open>KeyError\<close> for a key the dictionary does not have.\<close>

fun getitem_posting :: "item \<Rightarrow> string \<Rightarrow> exn + posting" where
  "getitem_posting (Posting p) key = Inr p"
| "getitem_posting (FeedError m) key = Inl (KeyError key)"

subsection \<open>The entry normalizer\<close>

text \<open>\<open>getattr(entry, name, "")\<close>.\<close>

definition getattr_str :: "string option \<Rightarrow> string" where
  "getattr_str a = (case a of None \<Rightarrow> [] | Some s \<Rightarrow> s)"

text \<open>The value \<open>published\<close> of lines 66 to 70.\<close>

definition entry_published :: "entry \<Rightarrow> exn + string option" where
  "entry_published e =
     (case published_parsed e of
        Some t \<Rightarrow> (case datetime_isoformat t of Inl x \<Rightarrow> Inl x | Inr s \<Rightarrow> Inr (Some s))
      | None \<Rightarrow>
          (case updated_parsed e of
             Some t \<Rightarrow> (case datetime_isoformat t of Inl x \<Rightarrow> Inl x | Inr s \<Rightarrow> Inr (Some s))
           | None \<Rightarrow> Inr None))"

definition normalize_entry :: "world \<Rightarrow> entry \<Rightarrow> exn + item" where
  "normalize_entry w e =
     (case entry_published e of
        Inl x \<Rightarrow> Inl x
      | Inr pub \<Rightarrow>
          (case urlparse_netloc w (getattr_str (e_link e)) of
             Inl x \<Rightarrow> Inl x
           | Inr host \<Rightarrow>
               Inr (Posting \<lparr> title = getattr_str (e_title e),
                              link = getattr_str (e_link e),
                              summary = getattr_str (e_summary e),
                              published = pub,
                              source = host \<rparr>)))"

subsection \<open>The pipeline\<close>

text \<open>The text the keyword lists are matched against (lines 86 to 90).\<close>

definition entry_text :: "entry \<Rightarrow> string" where
  "entry_text e =
     join '' '' [getattr_str (e_title e), getattr_str (e_summary e),
                 getattr_str (e_description e)]"

text \<open>\<open>getattr(e, "published_parsed", None) or getattr(e, "updated_parsed", None)\<close>.\<close>

definition entry_time :: "entry \<Rightarrow> struct_time option" where
  "entry_time e =
     (case published_parsed e of Some t \<Rightarrow> Some t | None \<Rightarrow> updated_parsed e)"

text \<open>
  The three checks of lines 93 to 98, in their order: \<open>Inr True\<close> when the entry
  reaches \<open>normalize_entry\<close>, \<open>Inr False\<close> when a \<open>continue\<close> skips it, \<open>Inl\<close>
  when a check raises.
\<close>

definition entry_survives :: "world \<Rightarrow> string list \<Rightarrow> string list \<Rightarrow> int \<Rightarrow> entry \<Rightarrow> exn + bool"
  where
  "entry_survives w ks ex h e =
     (case within_hours w (entry_time e) h of
        Inl x \<Rightarrow> Inl x
      | Inr recent \<Rightarrow>
          if \<not> recent then Inr False
          else if \<not> match_keywords (entry_text e) ks then Inr False
          else if match_exclusions (entry_text e) ex then Inr False
          else Inr True)"

text \<open>
  The loop over the entries of one feed: the results appended, and the exception that
  ended the loop early, if one did.
\<close>

fun scan_entries ::
  "world \<Rightarrow> string list \<Rightarrow> string list \<Rightarrow> int \<Rightarrow> entry list \<Rightarrow> item list \<times> exn option"
  where
  "scan_entries w ks ex h [] = ([], None)"
| "scan_entries w ks ex h (e # es) =
     (case entry_survives w ks ex h e of
        Inl x \<Rightarrow> ([], Some x)
      | Inr False \<Rightarrow> scan_entries w ks ex h es
      | Inr True \<Rightarrow>
          (case normalize_entry w e of
             Inl x \<Rightarrow> ([], Some x)
           | Inr r \<Rightarrow>
               (case scan_entries w ks ex h es of
                  (rs, stop) \<Rightarrow> (r # rs, stop))))"

text \<open>The record of a failed feed (line 102).\<close>

definition feed_error :: "string \<Rightarrow> exn \<Rightarrow> item" where
  "feed_error url x = FeedError (''Failed to parse '' @ url @ '': '' @ str_exn x)"

text \<open>The body of the loop over the feeds (lines 83 to 102): what one feed appends.\<close>

definition fetch_feed :: "world \<Rightarrow> string list \<Rightarrow> string list \<Rightarrow> int \<Rightarrow> string \<Rightarrow> item list"
  where
  "fetch_feed w ks ex h url =
     (case feedparser_parse w url of
        Inl x \<Rightarrow> [feed_error url x]
      | Inr p \<Rightarrow>
          (case scan_entries w ks ex h (entries p) of
             (rs, None) \<Rightarrow> rs
           | (rs, Some x) \<Rightarrow> rs @ [feed_error url x]))"

text \<open>The list \<open>results\<close> after the loop over the feeds.\<close>

definition gather :: "world \<Rightarrow> string list \<Rightarrow> string list \<Rightarrow> string list \<Rightarrow> int \<Rightarrow> item list"
  where
  "gather w fs ks ex h = concat (map (fetch_feed w ks ex h) fs)"

text \<open>The key of the de-duplication (line 107).\<close>

definition item_key :: "item \<Rightarrow> string option \<times> string option" where
  "item_key r = (get_link r, get_title r)"

text \<open>The de-duplication loop (lines 104 to 110), from a given set \<open>seen\<close>.\<close>

fun dedupe :: "(string option \<times> string option) set \<Rightarrow> item list \<Rightarrow> item list" where
  "dedupe seen [] = []"
| "dedupe seen (r # rs) =
     (if item_key r \<notin> seen then r # dedupe (insert (item_key r) seen) rs
      else dedupe seen rs)"

text \<open>The key of the sort (line 112): \<open>r.get("published") or ""\<close>.\<close>

definition published_key :: "item \<Rightarrow> string" where
  "published_key r = (case get_published r of None \<Rightarrow> [] | Some s \<Rightarrow> s)"

text \<open>
  \<open>list.sort(key=..., reverse=True)\<close>: a stable sort by descending key, items of equal
  key staying in their order. Modelled by insertion from the right: an item goes in
  front of the first item whose key is not greater.
\<close>

fun insert_desc :: "item \<Rightarrow> item list \<Rightarrow> item list" where
  "insert_desc r [] = [r]"
| "insert_desc r (y # ys) =
     (if published_key y \<le> published_key r then r # y # ys else y # insert_desc r ys)"

definition sort_newest_first :: "item list \<Rightarrow> item list" where
  "sort_newest_first rs = foldr insert_desc rs []"

definition fetch_jobs :: "world \<Rightarrow> string list \<Rightarrow> string list \<Rightarrow> string list \<Rightarrow> int \<Rightarrow> item list"
  where
  "fetch_jobs w fs ks ex h = sort_newest_first (dedupe {} (gather w fs ks ex h))"

subsection \<open>The HTTP endpoint\<close>

record jobs_body =
  b_count :: nat
  b_hours :: int
  b_keywords :: "string list"
  b_exclude :: "string list"
  b_items :: "item list"

text \<open>
  What the handler returns: a \<open>JSONResponse\<close> with a status code and an \<open>error\<close>
  message, or the dictionary that the framework serves with status 200.
\<close>

datatype response = JSONResponse nat string | Body jobs_body

text \<open>
  \<open>GET /jobs\<close>; a query parameter that is not given is \<open>None\<close>. An exception of
  the handler is \<open>Inl\<close>.
\<close>

definition jobs :: "world \<Rightarrow> int option \<Rightarrow> string option \<Rightarrow> string option \<Rightarrow> exn + response"
  where
  "jobs w q_hours q_keywords q_exclude =
     (case get_config w of
        Inl x \<Rightarrow> Inl x
      | Inr cfg \<Rightarrow>
          (let hrs = (case q_hours of Some h \<Rightarrow> h | None \<Rightarrow> cfg_hours cfg);
               ks = (case q_keywords of
                       Some (c # cs) \<Rightarrow> map (\<lambda>k. lower (strip k)) (split CHR '','' (c # cs))
                     | _ \<Rightarrow> cfg_keywords cfg);
               ex = (case q_exclude of
                       Some (c # cs) \<Rightarrow> map (\<lambda>k. lower (strip k)) (split CHR '','' (c # cs))
                     | _ \<Rightarrow> cfg_exclude cfg)
           in if cfg_feeds cfg = [] then
                Inr (JSONResponse 400
                       ''No feeds configured. Set FEED_URLS or provide feeds.example.txt.'')
              else
                (let items = fetch_jobs w (cfg_feeds cfg) ks ex hrs in
                 Inr (Body \<lparr> b_count = length items, b_hours = hrs, b_keywords = ks,
                              b_exclude = ex, b_items = items \<rparr>))))"

subsection \<open>The command line\<close>

text \<open>What \<open>print\<close> writes, one value for each call, with the values interpolated.\<close>

datatype printed =
    NoFeeds string
  | Found nat int "string list"
  | ItemLine string string
  | LinkLine string
  | PublishedLine string

text \<open>How \<open>main\<close> ends: it returns, an exception leaves it, or it starts the server.\<close>

datatype ending = Returned | Raised exn | Serving int

text \<open>The printing loop (lines 151 to 155).\<close>

fun print_items :: "item list \<Rightarrow> printed list \<times> exn option" where
  "print_items [] = ([], None)"
| "print_items (it # its) =
     (case getitem_posting it ''title'' of
        Inl x \<Rightarrow> ([], Some x)
      | Inr p \<Rightarrow>
          (case print_items its of
             (out, stop) \<Rightarrow>
               ([ItemLine (title p) (source p), LinkLine (link p)]
                  @ (case published p of
                       Some (c # cs) \<Rightarrow> [PublishedLine (c # cs)]
                     | _ \<Rightarrow> [])
                  @ out,
                stop)))"

text \<open>\<open>main\<close>, with the flag \<open>--once\<close> given or not: what it prints and how it ends.\<close>

definition main :: "world \<Rightarrow> bool \<Rightarrow> printed list \<times> ending" where
  "main w once =
     (if once then
        (case get_config w of
           Inl x \<Rightarrow> ([], Raised x)
         | Inr cfg \<Rightarrow>
             if cfg_feeds cfg = [] then
               ([NoFeeds ''No feeds configured. Set FEED_URLS or provide feeds.example.txt''],
                Returned)
             else
               (let items = fetch_jobs w (cfg_feeds cfg) (cfg_keywords cfg) (cfg_exclude cfg)
                              (cfg_hours cfg)
                in case print_items (take 25 items) of
                     (out, None) \<Rightarrow>
                       (Found (length items) (cfg_hours cfg) (cfg_keywords cfg) # out, Returned)
                   | (out, Some x) \<Rightarrow>
                       (Found (length items) (cfg_hours cfg) (cfg_keywords cfg) # out, Raised x)))
      else
        (case py_int w (getenv w ''PORT'' ''8000'') of
           None \<Rightarrow> ([], Raised (ValueError ''invalid literal for int()''))
         | Some port \<Rightarrow> ([], Serving port)))"

subsection \<open>Vocabulary of the specification\<close>


text \<open>
  The lines the feeds file reader skips, in the words of the specification: a blank
  line, and a line whose first character that is not white space is \<open>#\<close>.
\<close>

definition blank_line :: "string \<Rightarrow> bool" where
  "blank_line l = list_all isspace l"

definition comment_line :: "string \<Rightarrow> bool" where
  "comment_line l = (case dropWhile isspace l of [] \<Rightarrow> False | c # cs \<Rightarrow> c = CHR ''#'')"

subsection \<open>A sample run\<close>

text \<open>
  The clock reads 2026-11-03T12:00:00 UTC. The feed \<open>feedA\<close> has one entry,
  published exactly one hour earlier. The feed \<open>feedD\<close> has that entry and then one
  dated in the year 10000. The fetch of \<open>feedE\<close> times out, which the parser records
  in its result without raising. For every other feed the parser raises. The feeds file
  \<open>feeds.txt\<close> holds a comment, a blank line and one URL.
\<close>

definition example_now :: int where
  "example_now = 63929304000000000"

definition example_time :: struct_time where
  "example_time =
     \<lparr> tm_year = 2026, tm_mon = 11, tm_mday = 3, tm_hour = 11, tm_min = 0, tm_sec = 0 \<rparr>"

definition example_entry :: entry where
  "example_entry =
     \<lparr> e_title = Some ''DevOps Engineer opening'', e_summary = Some ''Run the platform'',
       e_description = None, e_link = Some ''https://jobs.example.com/1'',
       published_parsed = Some example_time, updated_parsed = None \<rparr>"

definition misdated_entry :: entry where
  "misdated_entry =
     \<lparr> e_title = Some ''DevOps Lead'', e_summary = None, e_description = None,
       e_link = Some ''https://jobs.example.com/2'',
       published_parsed = Some (example_time\<lparr>tm_year := 10000\<rparr>), updated_parsed = None \<rparr>"

definition example_posting :: posting where
  "example_posting =
     \<lparr> title = ''DevOps Engineer opening'', link = ''https://jobs.example.com/1'',
       summary = ''Run the platform'', published = Some ''2026-11-03T11:00:00+00:00'',
       source = ''jobs.example.com'' \<rparr>"

definition example_world :: world where
  "example_world =
     \<lparr> environ = [''FEED_URLS'' \<mapsto> ''feedA, feedB''],
       files =
         (\<lambda>p. if p = ''feeds.txt''
              then Lines [''# my feeds'' @ [CHR 0x0A], [CHR 0x0A],
                          '' https://a.example/rss'' @ [CHR 0x0A]]
              else Missing),
       py_int = (\<lambda>s. if s = ''24'' then Some 24 else if s = ''8000'' then Some 8000 else None),
       feedparser_parse =
         (\<lambda>url. if url = ''feedA'' then
                  Inr \<lparr> entries = [example_entry], bozo_exception = None \<rparr>
                else if url = ''feedD'' then
                  Inr \<lparr> entries = [example_entry, misdated_entry], bozo_exception = None \<rparr>
                else if url = ''feedE'' then
                  Inr \<lparr> entries = [], bozo_exception = Some (FeedException ''timed out'') \<rparr>
                else Inl (FeedException ''timed out'')),
       urlparse_netloc =
         (\<lambda>l. Inr (if l = ''https://jobs.example.com/1'' then ''jobs.example.com'' else [])),
       utcnow = example_now \<rparr>"


section \<open>Properties\<close>

subsection \<open>Strings\<close>



lemma dropWhile_all: "(\<forall>c \<in> set (dropWhile P l). P c) \<longleftrightarrow> (\<forall>c \<in> set l. P c)"
proof
  assume a: "\<forall>c \<in> set (dropWhile P l). P c"
  have "dropWhile P l = []"
  proof (rule ccontr)
    assume n: "dropWhile P l \<noteq> []"
    then have "\<not> P (hd (dropWhile P l))" by (rule hd_dropWhile)
    moreover have "hd (dropWhile P l) \<in> set (dropWhile P l)" using n by simp
    ultimately show False using a by blast
  qed
  then show "\<forall>c \<in> set l. P c" by (simp add: dropWhile_eq_Nil_conv)
next
  assume "\<forall>c \<in> set l. P c"
  then show "\<forall>c \<in> set (dropWhile P l). P c" by (meson set_dropWhileD)
qed

lemma strip_empty_iff: "strip l = [] \<longleftrightarrow> blank_line l"
proof -
  have "strip l = [] \<longleftrightarrow> (\<forall>c \<in> set (dropWhile isspace l). isspace c)"
    by (simp add: strip_def dropWhile_eq_Nil_conv)
  then show ?thesis by (simp add: dropWhile_all blank_line_def list_all_iff)
qed

lemma rstrip_keeps_head:
  "\<not> P c \<Longrightarrow> \<exists>r. rev (dropWhile P (rev (c # cs))) = c # r"
  by (simp add: dropWhile_append3)

lemma strip_comment_iff: "startswith (strip l) ''#'' \<longleftrightarrow> comment_line l"
proof -
  define d where "d = dropWhile isspace l"
  have s: "strip l = rev (dropWhile isspace (rev d))"
    by (simp add: strip_def d_def)
  have c: "comment_line l = (case d of [] \<Rightarrow> False | x # xs \<Rightarrow> x = CHR ''#'')"
    by (simp add: comment_line_def d_def)
  have h: "d \<noteq> [] \<Longrightarrow> \<not> isspace (hd d)"
    unfolding d_def by (rule hd_dropWhile)
  show ?thesis
  proof (cases d)
    case Nil
    then show ?thesis by (simp add: s c)
  next
    case (Cons x xs)
    then have "\<not> isspace x" using h by simp
    then have "\<exists>r. rev (dropWhile isspace (rev (x # xs))) = x # r"
      by (rule rstrip_keeps_head)
    then obtain r where r: "rev (dropWhile isspace (rev (x # xs))) = x # r" ..
    have "strip l = x # r" unfolding s Cons by (rule r)
    moreover have "comment_line l = (x = CHR ''#'')" unfolding c Cons by simp
    ultimately show ?thesis by simp
  qed
qed

lemma parse_env_list_eq:
  "parse_env_list v = filter (\<lambda>x. x \<noteq> []) (map strip (split CHR '','' v))"
proof -
  have "strip [] = []" by (simp add: strip_def)
  then show ?thesis by (cases v) (simp_all add: parse_env_list_def filter_map comp_def)
qed

subsection \<open>The de-duplication loop\<close>

lemma dedupe_subseq: "subseq (dedupe seen rs) rs"
  by (induction rs arbitrary: seen) auto

lemma dedupe_keys: "item_key ` set (dedupe seen rs) = item_key ` set rs - seen"
  by (induction rs arbitrary: seen) auto

lemma dedupe_distinct: "distinct (map item_key (dedupe seen rs))"
  by (induction rs arbitrary: seen) (auto simp: dedupe_keys)

lemma dedupe_filter_seen: "k \<in> seen \<Longrightarrow> filter (\<lambda>r. item_key r = k) (dedupe seen rs) = []"
  by (induction rs arbitrary: seen) auto

lemma dedupe_filter_key:
  "k \<notin> seen \<Longrightarrow>
   filter (\<lambda>r. item_key r = k) (dedupe seen rs) =
     (case find (\<lambda>r. item_key r = k) rs of None \<Rightarrow> [] | Some r \<Rightarrow> [r])"
  by (induction rs arbitrary: seen) (auto simp: dedupe_filter_seen)

lemma set_dedupe_subset: "set (dedupe seen rs) \<subseteq> set rs"
  by (induction rs arbitrary: seen) auto


subsection \<open>The sort\<close>

lemma set_insert_desc: "set (insert_desc r ys) = insert r (set ys)"
  by (induction ys) auto

lemma set_sort_newest_first: "set (sort_newest_first rs) = set rs"
  by (induction rs) (auto simp: sort_newest_first_def set_insert_desc)

lemma mset_insert_desc: "mset (insert_desc r ys) = add_mset r (mset ys)"
  by (induction ys) auto

lemma mset_sort_newest_first: "mset (sort_newest_first rs) = mset rs"
  by (induction rs) (auto simp: sort_newest_first_def mset_insert_desc)

lemma insert_desc_sorted:
  "sorted_wrt (\<lambda>a b. published_key b \<le> published_key a) ys \<Longrightarrow>
   sorted_wrt (\<lambda>a b. published_key b \<le> published_key a) (insert_desc r ys)"
  by (induction ys) (auto simp: set_insert_desc)

lemma sort_newest_first_sorted:
  "sorted_wrt (\<lambda>a b. published_key b \<le> published_key a) (sort_newest_first rs)"
  by (induction rs) (auto simp: sort_newest_first_def insert_desc_sorted)

lemma filter_insert_desc:
  "sorted_wrt (\<lambda>a b. published_key b \<le> published_key a) ys \<Longrightarrow>
   filter P (insert_desc r ys) = (if P r then insert_desc r (filter P ys) else filter P ys)"
proof (induction ys)
  case Nil
  show ?case by simp
next
  case (Cons y ys)
  show ?case
  proof (cases "published_key y \<le> published_key r")
    case True
    have "insert_desc r (filter P (y # ys)) = r # filter P (y # ys)"
    proof (cases "filter P (y # ys)")
      case Nil then show ?thesis by simp
    next
      case (Cons z zs)
      then have "z \<in> set (filter P (y # ys))" by simp
      then have "z \<in> set (y # ys)" by (simp del: filter.simps)
      then have "published_key z \<le> published_key y" using Cons.prems by auto
      then have "published_key z \<le> published_key r" using True by (rule order_trans)
      then show ?thesis using Cons by (simp del: filter.simps)
    qed
    then show ?thesis using True by simp
  next
    case False
    then show ?thesis using Cons by simp
  qed
qed

lemma filter_sort_newest_first:
  "filter P (sort_newest_first rs) = sort_newest_first (filter P rs)"
  using sort_newest_first_sorted
  by (induction rs) (auto simp: sort_newest_first_def filter_insert_desc)

lemma sort_equal_keys:
  "\<forall>r \<in> set rs. published_key r = k \<Longrightarrow> sort_newest_first rs = rs"
proof (induction rs)
  case Nil show ?case by (simp add: sort_newest_first_def)
next
  case (Cons r rs)
  then have "sort_newest_first rs = rs" by simp
  then show ?case using Cons.prems by (cases rs) (auto simp: sort_newest_first_def)
qed

lemma sort_stable:
  "filter (\<lambda>r. published_key r = k) (sort_newest_first rs) = filter (\<lambda>r. published_key r = k) rs"
  by (simp add: filter_sort_newest_first sort_equal_keys [of _ k])

lemma sorted_split:
  "sorted_wrt (\<lambda>a b. published_key b \<le> published_key a) rs \<Longrightarrow>
   rs = filter (\<lambda>r. published_key r \<noteq> []) rs @ filter (\<lambda>r. published_key r = []) rs"
proof (induction rs)
  case Nil show ?case by simp
next
  case (Cons r rs)
  show ?case
  proof (cases "published_key r = []")
    case True
    then have "\<forall>x \<in> set rs. published_key x = []" using Cons.prems by auto
    then have "filter (\<lambda>r. published_key r \<noteq> []) rs = []" "filter (\<lambda>r. published_key r = []) rs = rs"
      by (auto simp: filter_empty_conv filter_id_conv)
    then show ?thesis using True by simp
  next
    case False
    then show ?thesis using Cons by simp
  qed
qed

subsection \<open>The filter and the loop over the entries\<close>

lemma timedelta_hours_ok:
  assumes "0 \<le> h" and "h * 3600000000 < MAX_US"
  shows "timedelta_hours h = Inr (h * 3600000000)"
proof -
  have a: "h < 87649416" using assms(2) by (simp add: MAX_US_def)
  have b: "0 \<le> h div 24" using assms(1) by (simp add: pos_imp_zdiv_nonneg_iff)
  have "h div 24 \<le> h"
  proof -
    have "24 * (h div 24) + h mod 24 = h" by simp
    moreover have "0 \<le> h mod 24" by simp
    ultimately show ?thesis using b by linarith
  qed
  then show ?thesis using a b by (simp add: timedelta_hours_def Let_def)
qed

lemma minus_hours_ok:
  "0 \<le> h \<Longrightarrow> h * 3600000000 \<le> now \<Longrightarrow> now < MAX_US \<Longrightarrow>
   minus_hours now h = Inr (now - h * 3600000000)"
  by (simp add: minus_hours_def timedelta_hours_ok Let_def)

lemma no_time_excluded: "entry_time e = None \<Longrightarrow> entry_survives w ks ex h' e = Inr False"
  by (simp add: entry_survives_def within_hours_def)

lemma entry_survives_iff:
  "entry_survives w ks ex h e = Inr True \<longleftrightarrow>
     within_hours w (entry_time e) h = Inr True \<and> match_keywords (entry_text e) ks
     \<and> \<not> match_exclusions (entry_text e) ex"
  by (auto simp: entry_survives_def split: sum.splits)




lemma month_cases:
  "1 \<le> m \<Longrightarrow> m \<le> 12 \<Longrightarrow>
   m = 1 \<or> m = 2 \<or> m = 3 \<or> m = 4 \<or> m = 5 \<or> m = 6 \<or> m = 7 \<or> m = 8 \<or> m = 9
   \<or> m = 10 \<or> m = 11 \<or> m = (12::int)"
  by presburger

lemma days_in_month_le:
  assumes "1 \<le> m" and "m \<le> 12"
  shows "days_in_month y m \<le> 31"
  using month_cases [OF assms]
  by (elim disjE) (simp_all add: days_in_month_def DAYS_IN_MONTH_def)

lemma as_c_int_small: "- 2147483648 \<le> n \<Longrightarrow> n \<le> 2147483647 \<Longrightarrow> as_c_int n = None"
  by (simp add: as_c_int_def)

lemma valid_time_c_int:
  assumes "valid_time t"
  shows "first_raised (map as_c_int [tm_year t, tm_mon t, tm_mday t,
                                     tm_hour t, tm_min t, tm_sec t]) = None"
proof -
  have m: "1 \<le> tm_mon t" "tm_mon t \<le> 12"
    using assms by (simp_all add: valid_time_def)
  have d: "1 \<le> tm_mday t" "tm_mday t \<le> 31"
    using assms days_in_month_le [OF m, of "tm_year t"] by (simp_all add: valid_time_def)
  have "as_c_int (tm_year t) = None" "as_c_int (tm_mon t) = None"
       "as_c_int (tm_mday t) = None" "as_c_int (tm_hour t) = None"
       "as_c_int (tm_min t) = None" "as_c_int (tm_sec t) = None"
    using assms d by (simp_all add: valid_time_def as_c_int_small)
  then show ?thesis by simp
qed

lemma datetime_valid:
  assumes "valid_time t"
  shows "datetime t = Inr (datetime_utc t)"
  unfolding datetime_def valid_time_c_int [OF assms]
  using assms by (simp add: valid_time_def)

lemma datetime_InrD: "datetime t = Inr d \<Longrightarrow> valid_time t \<and> d = datetime_utc t"
  by (simp add: datetime_def valid_time_def split: if_splits option.splits)

lemma within_hours_valid:
  "valid_time t \<Longrightarrow>
   within_hours w (Some t) h =
     (case minus_hours (utcnow w) h of Inl x \<Rightarrow> Inl x
      | Inr cutoff \<Rightarrow> Inr (cutoff \<le> datetime_utc t))"
  by (simp add: within_hours_def datetime_valid)

lemma within_hours_TrueD:
  assumes "within_hours w pp h = Inr True"
  shows "\<exists>t. pp = Some t \<and> valid_time t"
proof (cases pp)
  case None
  then show ?thesis using assms by (simp add: within_hours_def)
next
  case (Some t)
  show ?thesis
  proof (cases "datetime t")
    case (Inl x)
    then show ?thesis using assms Some by (simp add: within_hours_def)
  next
    case (Inr d)
    then have "valid_time t" using datetime_InrD by blast
    then show ?thesis using Some by simp
  qed
qed

lemma entry_survives_time:
  assumes "entry_survives w ks ex h e = Inr True"
  shows "\<exists>t. entry_time e = Some t \<and> valid_time t"
proof -
  have "within_hours w (entry_time e) h = Inr True"
    using assms entry_survives_iff [of w ks ex h e] by simp
  then show ?thesis by (rule within_hours_TrueD)
qed

lemma entry_published_time:
  "entry_time e = Some t \<Longrightarrow> entry_published e = Inr pub \<Longrightarrow> pub = Some (isoformat t)"
  by (auto simp: entry_published_def entry_time_def datetime_isoformat_def
      split: option.splits sum.splits)

lemma normalize_published:
  assumes "entry_time e = Some t" and "normalize_entry w e = Inr r"
  shows "\<exists>p. r = Posting p \<and> published p = Some (isoformat t)"
proof (cases "entry_published e")
  case (Inl x)
  then show ?thesis using assms(2) by (simp add: normalize_entry_def)
next
  case (Inr pub)
  then have "pub = Some (isoformat t)" using assms(1) by (intro entry_published_time)
  then show ?thesis using assms(2) Inr
    by (cases "urlparse_netloc w (getattr_str (e_link e))") (auto simp: normalize_entry_def)
qed

lemma scan_entries_published:
  "r \<in> set (fst (scan_entries w ks ex h es)) \<Longrightarrow>
   \<exists>p t. r = Posting p \<and> valid_time t \<and> published p = Some (isoformat t)"
proof (induction es)
  case Nil then show ?case by simp
next
  case (Cons e es)
  show ?case
  proof (cases "entry_survives w ks ex h e")
    case (Inl x) then show ?thesis using Cons by simp
  next
    case (Inr b)
    show ?thesis
    proof (cases b)
      case False then show ?thesis using Inr Cons by simp
    next
      case True
      then obtain t where t: "entry_time e = Some t" "valid_time t"
        using Inr entry_survives_time [of w ks ex h e] by auto
      have n: "\<And>r. normalize_entry w e = Inr r \<Longrightarrow>
                     \<exists>p t. r = Posting p \<and> valid_time t \<and> published p = Some (isoformat t)"
        using normalize_published [OF t(1)] t(2) by blast
      show ?thesis
      proof (cases "normalize_entry w e")
        case (Inl x)
        then show ?thesis using True Inr Cons by simp
      next
        case (Inr r')
        obtain rs stop where s: "scan_entries w ks ex h es = (rs, stop)" by fastforce
        have "r = r' \<or> r \<in> set rs"
          using Cons.prems True \<open>entry_survives w ks ex h e = Inr b\<close> Inr s by simp
        then show ?thesis
        proof
          assume "r = r'"
          then show ?thesis using n [OF Inr] by simp
        next
          assume "r \<in> set rs"
          then show ?thesis using Cons.IH s by simp
        qed
      qed
    qed
  qed
qed




lemma fetch_feed_published:
  assumes "Posting p \<in> set (fetch_feed w ks ex h url)"
  shows "\<exists>t. valid_time t \<and> published p = Some (isoformat t)"
proof (cases "feedparser_parse w url")
  case (Inl x)
  then show ?thesis using assms by (simp add: fetch_feed_def feed_error_def)
next
  case (Inr f)
  obtain rs stop where s: "scan_entries w ks ex h (entries f) = (rs, stop)" by fastforce
  then have "Posting p \<in> set rs"
    using assms Inr by (cases stop) (auto simp: fetch_feed_def feed_error_def)
  then show ?thesis
    using scan_entries_published [of "Posting p" w ks ex h "entries f"] s by simp
qed


lemma gather_append:
  "gather w (fs1 @ fs2) ks ex h = gather w fs1 ks ex h @ gather w fs2 ks ex h"
  by (simp add: gather_def)




lemma fetch_jobs_published:
  "Posting p \<in> set (fetch_jobs w fs ks ex h) \<Longrightarrow>
   \<exists>t. valid_time t \<and> published p = Some (isoformat t)"
  using set_dedupe_subset [of "{}" "gather w fs ks ex h"] fetch_feed_published [of p w ks ex h]
  by (auto simp: fetch_jobs_def set_sort_newest_first gather_def)

lemma isoformat_not_empty: "isoformat t \<noteq> []"
  by (simp add: isoformat_def pad4_def)

subsection \<open>Calendar times and their ISO format\<close>

lemma days_before_month_step:
  assumes "1 \<le> m" and "m \<le> 11"
  shows "days_before_month y (m + 1) = days_before_month y m + days_in_month y m"
proof -
  have "m = 1 \<or> m = 2 \<or> m = 3 \<or> m = 4 \<or> m = 5 \<or> m = 6 \<or> m = 7 \<or> m = 8 \<or> m = 9
   \<or> m = 10 \<or> m = (11::int)"
    using assms by presburger
  then show ?thesis
    by (elim disjE)
       (simp_all add: days_before_month_def days_in_month_def DAYS_BEFORE_MONTH_def
          DAYS_IN_MONTH_def)
qed

lemma days_in_month_pos:
  assumes "1 \<le> m" and "m \<le> 12"
  shows "28 \<le> days_in_month y m"
  using month_cases [OF assms]
  by (elim disjE) (simp_all add: days_in_month_def DAYS_IN_MONTH_def)

lemma days_before_month_last:
  "days_before_month y 12 + days_in_month y 12 = 365 + (if is_leap y then 1 else 0)"
  by (simp add: days_before_month_def days_in_month_def DAYS_BEFORE_MONTH_def DAYS_IN_MONTH_def)

lemma days_before_month_first: "days_before_month y 1 = 0"
  by (simp add: days_before_month_def DAYS_BEFORE_MONTH_def)

lemma div_step:
  fixes y k :: int
  assumes "0 < k"
  shows "y div k = (y - 1) div k + (if y mod k = 0 then 1 else 0)"
proof (cases "y mod k = 0")
  case True
  have e: "k * (y div k) = y"
    using True mult_div_mod_eq [of k y] by simp
  have "k * (y div k - 1) + (k - 1) = k * (y div k) - 1"
    by (simp add: algebra_simps)
  then have "y - 1 = k * (y div k - 1) + (k - 1)"
    by (simp only: e)
  then have "(y - 1) div k = y div k - 1"
    by (rule int_div_pos_eq) (use assms in simp_all)
  then show ?thesis using True by simp
next
  case False
  have "0 \<le> y mod k" "y mod k < k"
    using assms by simp_all
  then have r: "0 \<le> y mod k - 1" "y mod k - 1 < k"
    using False by simp_all
  have "k * (y div k) + (y mod k - 1) = k * (y div k) + y mod k - 1"
    by simp
  then have "y - 1 = k * (y div k) + (y mod k - 1)"
    by (simp only: mult_div_mod_eq)
  then have "(y - 1) div k = y div k"
    using r by (rule int_div_pos_eq)
  then show ?thesis using False by simp
qed

lemma mod100_mod4: "(y::int) mod 100 = 0 \<Longrightarrow> y mod 4 = 0"
proof -
  assume a: "y mod 100 = 0"
  have "y mod 100 mod 4 = y mod 4" by (rule mod_mod_cancel) simp
  then show ?thesis by (simp add: a)
qed

lemma mod400_mod100: "(y::int) mod 400 = 0 \<Longrightarrow> y mod 100 = 0"
proof -
  assume a: "y mod 400 = 0"
  have "y mod 400 mod 100 = y mod 100" by (rule mod_mod_cancel) simp
  then show ?thesis by (simp add: a)
qed

lemma days_before_year_step:
  "days_before_year (y + 1) = days_before_year y + 365 + (if is_leap y then 1 else 0)"
proof -
  define q4 q100 q400 where "q4 = (y - 1) div 4" and "q100 = (y - 1) div 100"
    and "q400 = (y - 1) div 400"
  have s4: "y div 4 = q4 + (if y mod 4 = 0 then 1 else 0)"
    unfolding q4_def by (rule div_step) simp
  have s100: "y div 100 = q100 + (if y mod 100 = 0 then 1 else 0)"
    unfolding q100_def by (rule div_step) simp
  have s400: "y div 400 = q400 + (if y mod 400 = 0 then 1 else 0)"
    unfolding q400_def by (rule div_step) simp
  have a: "days_before_year (y + 1) = y * 365 + y div 4 - y div 100 + y div 400"
    by (simp add: days_before_year_def)
  have b: "days_before_year y = (y - 1) * 365 + q4 - q100 + q400"
    by (simp add: days_before_year_def Let_def q4_def q100_def q400_def)
  have c: "(y - 1) * 365 = y * 365 - 365" by (simp add: algebra_simps)
  show ?thesis
    unfolding a b c s4 s100 s400 is_leap_def
    using mod100_mod4 [of y] mod400_mod100 [of y]
    by (cases "y mod 4 = 0"; cases "y mod 100 = 0"; cases "y mod 400 = 0") simp_all
qed

lemma days_before_month_mono_aux:
  assumes "1 \<le> m" and "m + int k \<le> 12" and "0 < k"
  shows "days_before_month y m + days_in_month y m \<le> days_before_month y (m + int k)"
  using assms
proof (induction k)
  case 0
  then show ?case by simp
next
  case (Suc k)
  have e: "m + int (Suc k) = (m + int k) + 1" by simp
  have b: "1 \<le> m + int k" "m + int k \<le> 11" using Suc.prems by simp_all
  have st: "days_before_month y ((m + int k) + 1)
              = days_before_month y (m + int k) + days_in_month y (m + int k)"
    using b by (rule days_before_month_step)
  show ?case
  proof (cases "k = 0")
    case True
    then show ?thesis unfolding e st by simp
  next
    case False
    then have "days_before_month y m + days_in_month y m \<le> days_before_month y (m + int k)"
      using Suc by simp
    moreover have "28 \<le> days_in_month y (m + int k)"
      using b by (intro days_in_month_pos) simp_all
    ultimately show ?thesis unfolding e st by linarith
  qed
qed

lemma days_before_month_mono:
  assumes "1 \<le> m" and "m < m'" and "m' \<le> 12"
  shows "days_before_month y m + days_in_month y m \<le> days_before_month y m'"
proof -
  have "m + int (nat (m' - m)) = m'" using assms by simp
  then show ?thesis
    using days_before_month_mono_aux [of m "nat (m' - m)" y] assms by simp
qed

lemma days_before_year_mono_aux:
  assumes "0 < k"
  shows "days_before_year y + 365 + (if is_leap y then 1 else 0)
           \<le> days_before_year (y + int k)"
  using assms
proof (induction k)
  case 0
  then show ?case by simp
next
  case (Suc k)
  have e: "y + int (Suc k) = (y + int k) + 1" by simp
  show ?case
  proof (cases "k = 0")
    case True
    then show ?thesis unfolding e days_before_year_step by simp
  next
    case False
    then have "days_before_year y + 365 + (if is_leap y then 1 else 0)
           \<le> days_before_year (y + int k)"
      using Suc by simp
    then show ?thesis unfolding e days_before_year_step [of "y + int k"]
      by (simp split: if_splits)
  qed
qed

lemma days_before_year_mono:
  assumes "y < y'"
  shows "days_before_year y + 365 + (if is_leap y then 1 else 0) \<le> days_before_year y'"
proof -
  have "y + int (nat (y' - y)) = y'" using assms by simp
  then show ?thesis
    using days_before_year_mono_aux [of "nat (y' - y)" y] assms by simp
qed

lemma day_of_year_bounds:
  assumes "1 \<le> m" and "m \<le> 12" and "1 \<le> d" and "d \<le> days_in_month y m"
  shows "1 \<le> days_before_month y m + d"
    and "days_before_month y m + d \<le> 365 + (if is_leap y then 1 else 0)"
proof -
  have "0 \<le> days_before_month y m"
  proof (cases "m = 1")
    case True
    then show ?thesis by (simp add: days_before_month_first)
  next
    case False
    then have "days_before_month y 1 + days_in_month y 1 \<le> days_before_month y m"
      using assms by (intro days_before_month_mono) simp_all
    moreover have "28 \<le> days_in_month y 1" by (rule days_in_month_pos) simp_all
    ultimately show ?thesis by (simp add: days_before_month_first)
  qed
  then show "1 \<le> days_before_month y m + d" using assms by linarith
  have "days_before_month y m + days_in_month y m
          \<le> days_before_month y 12 + days_in_month y 12"
  proof (cases "m = 12")
    case True
    then show ?thesis by simp
  next
    case False
    then have "days_before_month y m + days_in_month y m \<le> days_before_month y 12"
      using assms by (intro days_before_month_mono) simp_all
    moreover have "28 \<le> days_in_month y 12" by (rule days_in_month_pos) simp_all
    ultimately show ?thesis by linarith
  qed
  then show "days_before_month y m + d \<le> 365 + (if is_leap y then 1 else 0)"
    unfolding days_before_month_last using assms by linarith
qed

lemma ymd2ord_less:
  assumes "valid_time a" and "valid_time b"
    and "tm_year a < tm_year b \<or> tm_year a = tm_year b \<and>
         (tm_mon a < tm_mon b \<or> tm_mon a = tm_mon b \<and> tm_mday a < tm_mday b)"
  shows "ymd2ord (tm_year a) (tm_mon a) (tm_mday a)
           < ymd2ord (tm_year b) (tm_mon b) (tm_mday b)"
proof -
  have va: "1 \<le> tm_mon a" "tm_mon a \<le> 12" "1 \<le> tm_mday a"
      "tm_mday a \<le> days_in_month (tm_year a) (tm_mon a)"
    using assms(1) by (simp_all add: valid_time_def)
  have vb: "1 \<le> tm_mon b" "tm_mon b \<le> 12" "1 \<le> tm_mday b"
      "tm_mday b \<le> days_in_month (tm_year b) (tm_mon b)"
    using assms(2) by (simp_all add: valid_time_def)
  note ba = day_of_year_bounds [OF va]
  note bb = day_of_year_bounds [OF vb]
  consider (Y) "tm_year a < tm_year b"
    | (M) "tm_year a = tm_year b" "tm_mon a < tm_mon b"
    | (D) "tm_year a = tm_year b" "tm_mon a = tm_mon b" "tm_mday a < tm_mday b"
    using assms(3) by blast
  then show ?thesis
  proof cases
    case Y
    have "days_before_year (tm_year a) + 365 + (if is_leap (tm_year a) then 1 else 0)
            \<le> days_before_year (tm_year b)"
      using Y by (rule days_before_year_mono)
    then show ?thesis unfolding ymd2ord_def using ba(2) bb(1) by linarith
  next
    case M
    have "days_before_month (tm_year a) (tm_mon a) + days_in_month (tm_year a) (tm_mon a)
            \<le> days_before_month (tm_year a) (tm_mon b)"
      using va(1) M(2) vb(2) by (rule days_before_month_mono)
    then show ?thesis unfolding ymd2ord_def M(1) [symmetric] using va(4) vb(3) by linarith
  next
    case D
    then show ?thesis unfolding ymd2ord_def by simp
  qed
qed

lemma datetime_utc_less:
  assumes "valid_time a" and "valid_time b" and "fields_less a b"
  shows "datetime_utc a < datetime_utc b"
proof -
  define oa ob where "oa = ymd2ord (tm_year a) (tm_mon a) (tm_mday a)"
    and "ob = ymd2ord (tm_year b) (tm_mon b) (tm_mday b)"
  have ta: "0 \<le> tm_hour a" "tm_hour a \<le> 23" "0 \<le> tm_min a" "tm_min a \<le> 59"
      "0 \<le> tm_sec a" "tm_sec a \<le> 59"
    using assms(1) by (simp_all add: valid_time_def)
  have tb: "0 \<le> tm_hour b" "tm_hour b \<le> 23" "0 \<le> tm_min b" "tm_min b \<le> 59"
      "0 \<le> tm_sec b" "tm_sec b \<le> 59"
    using assms(2) by (simp_all add: valid_time_def)
  consider (date) "tm_year a < tm_year b \<or> tm_year a = tm_year b \<and>
         (tm_mon a < tm_mon b \<or> tm_mon a = tm_mon b \<and> tm_mday a < tm_mday b)"
    | (time) "tm_year a = tm_year b" "tm_mon a = tm_mon b" "tm_mday a = tm_mday b"
        "tm_hour a < tm_hour b \<or> tm_hour a = tm_hour b \<and>
         (tm_min a < tm_min b \<or> tm_min a = tm_min b \<and> tm_sec a < tm_sec b)"
    using assms(3) unfolding fields_less_def by blast
  then have "(oa - 1) * 86400 + tm_hour a * 3600 + tm_min a * 60 + tm_sec a
           < (ob - 1) * 86400 + tm_hour b * 3600 + tm_min b * 60 + tm_sec b"
  proof cases
    case date
    have "oa < ob" unfolding oa_def ob_def using assms(1,2) date by (rule ymd2ord_less)
    then have "oa + 1 \<le> ob" by simp
    then have "(oa + 1) * 86400 \<le> ob * 86400" by simp
    then have o: "(oa - 1) * 86400 + 86400 \<le> (ob - 1) * 86400"
      by (simp add: algebra_simps)
    have "tm_hour a * 3600 + tm_min a * 60 + tm_sec a \<le> 86399" using ta by linarith
    moreover have "0 \<le> tm_hour b * 3600 + tm_min b * 60 + tm_sec b" using tb by linarith
    ultimately show ?thesis using o by linarith
  next
    case time
    have e: "oa = ob" unfolding oa_def ob_def using time(1,2,3) by simp
    consider (H) "tm_hour a < tm_hour b"
      | (M) "tm_hour a = tm_hour b" "tm_min a < tm_min b"
      | (S) "tm_hour a = tm_hour b" "tm_min a = tm_min b" "tm_sec a < tm_sec b"
      using time(4) by blast
    then have "tm_hour a * 3600 + tm_min a * 60 + tm_sec a
             < tm_hour b * 3600 + tm_min b * 60 + tm_sec b"
    proof cases
      case H
      then have "tm_hour a + 1 \<le> tm_hour b" by simp
      then have "(tm_hour a + 1) * 3600 \<le> tm_hour b * 3600" by simp
      then have "tm_hour a * 3600 + 3600 \<le> tm_hour b * 3600" by (simp add: algebra_simps)
      then show ?thesis using ta tb by linarith
    next
      case M
      then show ?thesis using ta tb by linarith
    next
      case S
      then show ?thesis by simp
    qed
    then show ?thesis unfolding e by simp
  qed
  then show ?thesis
    unfolding datetime_utc_def oa_def ob_def by simp
qed

lemma fields_le_cases:
  "fields_le a b = (fields_less a b \<or>
     (tm_year a = tm_year b \<and> tm_mon a = tm_mon b \<and> tm_mday a = tm_mday b
      \<and> tm_hour a = tm_hour b \<and> tm_min a = tm_min b \<and> tm_sec a = tm_sec b))"
  unfolding fields_le_def fields_less_def by (auto simp: order.order_iff_strict)

lemma fields_total: "fields_le a b \<or> fields_less b a"
  unfolding fields_le_def fields_less_def by (auto simp: not_less [symmetric] simp del: not_less)

lemma datetime_utc_le_iff:
  assumes "valid_time a" and "valid_time b"
  shows "(datetime_utc a \<le> datetime_utc b) = fields_le a b"
proof
  assume le: "datetime_utc a \<le> datetime_utc b"
  show "fields_le a b"
  proof (rule ccontr)
    assume "\<not> fields_le a b"
    then have "fields_less b a" using fields_total [of a b] by simp
    then have "datetime_utc b < datetime_utc a"
      using assms(2,1) by (intro datetime_utc_less)
    then show False using le by simp
  qed
next
  assume "fields_le a b"
  then consider "fields_less a b"
    | "tm_year a = tm_year b \<and> tm_mon a = tm_mon b \<and> tm_mday a = tm_mday b
      \<and> tm_hour a = tm_hour b \<and> tm_min a = tm_min b \<and> tm_sec a = tm_sec b"
    unfolding fields_le_cases by blast
  then show "datetime_utc a \<le> datetime_utc b"
  proof cases
    case 1
    then have "datetime_utc a < datetime_utc b" using assms by (intro datetime_utc_less)
    then show ?thesis by simp
  next
    case 2
    then show ?thesis by (simp add: datetime_utc_def)
  qed
qed

lemma of_char_digit: "(of_char (digit n) :: int) = 48 + n mod 10"
proof -
  have "0 \<le> n mod 10" "n mod 10 < 10" by simp_all
  then have "0 \<le> 48 + n mod 10" "48 + n mod 10 < 256" by linarith+
  then have "(48 + n mod 10) mod 256 = 48 + n mod 10"
    by (rule mod_pos_pos_trivial)
  then show ?thesis by (simp only: digit_def of_char_of)
qed

lemma char_less_int: "(c < d) = ((of_char c :: int) < of_char d)"
proof -
  have "((of_char c :: int) < of_char d) = (int (of_char c) < int (of_char d))"
    by (simp only: of_nat_of_char)
  also have "\<dots> = ((of_char c :: nat) < of_char d)"
    by (rule of_nat_less_iff)
  finally show ?thesis by (simp only: less_char_def)
qed

lemma char_eq_int: "(c = d) = ((of_char c :: int) = of_char d)"
  by (simp only: of_char_eq_iff)

lemma digit_less: "(digit a < digit b) = (a mod 10 < b mod 10)"
  by (simp only: char_less_int of_char_digit add_less_cancel_left)

lemma digit_eq: "(digit a = digit b) = (a mod 10 = b mod 10)"
  by (simp only: char_eq_int [of "digit a"] of_char_digit add_left_cancel)

lemma less_by_digits:
  fixes m n :: int
  assumes "m = 10 * a1 + a0" "n = 10 * b1 + b0" "0 \<le> a0" "a0 < 10" "0 \<le> b0" "b0 < 10"
  shows "(m < n) = (a1 < b1 \<or> a1 = b1 \<and> a0 < b0)"
proof -
  consider (less) "a1 < b1" | (eq) "a1 = b1" | (greater) "b1 < a1" by linarith
  then show ?thesis
  proof cases
    case less
    then have "m < n" using assms by linarith
    then show ?thesis using less by simp
  next
    case eq
    then show ?thesis unfolding assms(1,2) by simp
  next
    case greater
    then have "\<not> m < n" using assms by linarith
    then show ?thesis using greater by simp
  qed
qed

lemma eq_by_digits:
  fixes m n :: int
  assumes "m = 10 * a1 + a0" "n = 10 * b1 + b0" "0 \<le> a0" "a0 < 10" "0 \<le> b0" "b0 < 10"
  shows "(m = n) = (a1 = b1 \<and> a0 = b0)"
proof -
  consider (less) "a1 < b1" | (eq) "a1 = b1" | (greater) "b1 < a1" by linarith
  then show ?thesis
  proof cases
    case less
    then have "m < n" using assms by linarith
    then show ?thesis using less by simp
  next
    case eq
    then show ?thesis unfolding assms(1,2) by simp
  next
    case greater
    then have "n < m" using assms by linarith
    then show ?thesis using greater by simp
  qed
qed

lemma less_div10:
  "((m::int) < n) = (m div 10 < n div 10 \<or> m div 10 = n div 10 \<and> m mod 10 < n mod 10)"
  by (rule less_by_digits [where ?a1.0 = "m div 10" and ?a0.0 = "m mod 10"
        and ?b1.0 = "n div 10" and ?b0.0 = "n mod 10"]) simp_all

lemma eq_div10:
  "((m::int) = n) = (m div 10 = n div 10 \<and> m mod 10 = n mod 10)"
  by (rule eq_by_digits [where ?a1.0 = "m div 10" and ?a0.0 = "m mod 10"
        and ?b1.0 = "n div 10" and ?b0.0 = "n mod 10"]) simp_all

lemma top_digit:
  fixes m :: int
  assumes "0 \<le> m" "m < 10"
  shows "m mod 10 = m"
  using assms by (rule mod_pos_pos_trivial)

lemma div10_bounds:
  fixes m k :: int
  assumes "0 \<le> m" "m < 10 * k"
  shows "0 \<le> m div 10 \<and> m div 10 < k"
proof -
  have "m div 10 < k"
    using assms(2) by (simp add: div_less_iff_less_mult mult.commute)
  moreover have "0 \<le> m div 10"
    using assms(1) by (simp add: pos_imp_zdiv_nonneg_iff)
  ultimately show ?thesis by simp
qed

lemma pad2_le:
  assumes "0 \<le> m" "m < 100" "0 \<le> n" "n < 100"
  shows "(pad2 m @ xs \<le> pad2 n @ ys) = (m < n \<or> m = n \<and> xs \<le> ys)"
proof -
  have a: "m div 10 mod 10 = m div 10"
    using div10_bounds [of m 10] assms by (intro top_digit) simp_all
  have b: "n div 10 mod 10 = n div 10"
    using div10_bounds [of n 10] assms by (intro top_digit) simp_all
  have "(pad2 m @ xs \<le> pad2 n @ ys) =
        (m div 10 < n div 10 \<or> m div 10 = n div 10 \<and>
          (m mod 10 < n mod 10 \<or> m mod 10 = n mod 10 \<and> xs \<le> ys))"
    by (simp only: pad2_def append_Cons append_Nil Cons_le_Cons digit_less digit_eq a b)
  then show ?thesis
    unfolding less_div10 [of m n] eq_div10 [of m n] by blast
qed

lemma pad4_le:
  assumes "0 \<le> m" "m < 10000" "0 \<le> n" "n < 10000"
  shows "(pad4 m @ xs \<le> pad4 n @ ys) = (m < n \<or> m = n \<and> xs \<le> ys)"
proof -
  have m100: "m div 100 = m div 10 div 10"
    using zdiv_zmult2_eq [of 10 m 10] by simp
  have n100: "n div 100 = n div 10 div 10"
    using zdiv_zmult2_eq [of 10 n 10] by simp
  have m1000: "m div 1000 = m div 10 div 10 div 10"
    using zdiv_zmult2_eq [of 10 m 100] m100 by simp
  have n1000: "n div 1000 = n div 10 div 10 div 10"
    using zdiv_zmult2_eq [of 10 n 100] n100 by simp
  have "0 \<le> m div 10 \<and> m div 10 < 1000" using assms by (intro div10_bounds) simp_all
  then have "0 \<le> m div 10 div 10 \<and> m div 10 div 10 < 100" by (intro div10_bounds) simp_all
  then have "0 \<le> m div 10 div 10 div 10 \<and> m div 10 div 10 div 10 < 10"
    by (intro div10_bounds) simp_all
  then have a: "m div 10 div 10 div 10 mod 10 = m div 10 div 10 div 10"
    by (intro top_digit) simp_all
  have "0 \<le> n div 10 \<and> n div 10 < 1000" using assms by (intro div10_bounds) simp_all
  then have "0 \<le> n div 10 div 10 \<and> n div 10 div 10 < 100" by (intro div10_bounds) simp_all
  then have "0 \<le> n div 10 div 10 div 10 \<and> n div 10 div 10 div 10 < 10"
    by (intro div10_bounds) simp_all
  then have b: "n div 10 div 10 div 10 mod 10 = n div 10 div 10 div 10"
    by (intro top_digit) simp_all
  have "(pad4 m @ xs \<le> pad4 n @ ys) =
        (m div 10 div 10 div 10 < n div 10 div 10 div 10
         \<or> m div 10 div 10 div 10 = n div 10 div 10 div 10 \<and>
        (m div 10 div 10 mod 10 < n div 10 div 10 mod 10
         \<or> m div 10 div 10 mod 10 = n div 10 div 10 mod 10 \<and>
        (m div 10 mod 10 < n div 10 mod 10 \<or> m div 10 mod 10 = n div 10 mod 10 \<and>
        (m mod 10 < n mod 10 \<or> m mod 10 = n mod 10 \<and> xs \<le> ys))))"
    by (simp only: pad4_def append_Cons append_Nil Cons_le_Cons digit_less digit_eq
          m100 n100 m1000 n1000 a b)
  then show ?thesis
    unfolding less_div10 [of m n] eq_div10 [of m n]
      less_div10 [of "m div 10" "n div 10"] eq_div10 [of "m div 10" "n div 10"]
      less_div10 [of "m div 10 div 10" "n div 10 div 10"]
      eq_div10 [of "m div 10 div 10" "n div 10 div 10"]
    by blast
qed

lemma isoformat_le_iff:
  assumes "valid_time a" and "valid_time b"
  shows "(isoformat a \<le> isoformat b) = fields_le a b"
proof -
  have va: "0 \<le> tm_year a" "tm_year a < 10000" "0 \<le> tm_mon a" "tm_mon a < 100"
      "0 \<le> tm_mday a" "tm_mday a < 100" "0 \<le> tm_hour a" "tm_hour a < 100"
      "0 \<le> tm_min a" "tm_min a < 100" "0 \<le> tm_sec a" "tm_sec a < 100"
    using assms(1) days_in_month_le [of "tm_mon a" "tm_year a"]
    by (simp_all add: valid_time_def)
  have vb: "0 \<le> tm_year b" "tm_year b < 10000" "0 \<le> tm_mon b" "tm_mon b < 100"
      "0 \<le> tm_mday b" "tm_mday b < 100" "0 \<le> tm_hour b" "tm_hour b < 100"
      "0 \<le> tm_min b" "tm_min b < 100" "0 \<le> tm_sec b" "tm_sec b < 100"
    using assms(2) days_in_month_le [of "tm_mon b" "tm_year b"]
    by (simp_all add: valid_time_def)
  note py = pad4_le [OF va(1,2) vb(1,2)]
  note pm = pad2_le [OF va(3,4) vb(3,4)]
  note pd = pad2_le [OF va(5,6) vb(5,6)]
  note ph = pad2_le [OF va(7,8) vb(7,8)]
  note pi = pad2_le [OF va(9,10) vb(9,10)]
  note ps = pad2_le [OF va(11,12) vb(11,12)]
  have "(isoformat a \<le> isoformat b) =
     (tm_year a < tm_year b \<or> tm_year a = tm_year b \<and>
     (tm_mon a < tm_mon b \<or> tm_mon a = tm_mon b \<and>
     (tm_mday a < tm_mday b \<or> tm_mday a = tm_mday b \<and>
     (tm_hour a < tm_hour b \<or> tm_hour a = tm_hour b \<and>
     (tm_min a < tm_min b \<or> tm_min a = tm_min b \<and>
     (tm_sec a < tm_sec b \<or> tm_sec a = tm_sec b))))))"
    by (simp only: isoformat_def append_Cons append_Nil py pm pd ph pi ps Cons_le_Cons
          order_less_irrefl order_refl simp_thms)
  then show ?thesis
    unfolding fields_le_def by (simp only: order.order_iff_strict [of "tm_sec a"])
qed

lemma isoformat_order:
  assumes "valid_time a" and "valid_time b"
  shows "(isoformat a \<le> isoformat b) = (datetime_utc a \<le> datetime_utc b)"
  using isoformat_le_iff [OF assms] datetime_utc_le_iff [OF assms] by simp

subsection \<open>Configuration\<close>

lemma load_feeds_lines:
  "fp \<noteq> [] \<Longrightarrow> files w fp = Lines ls \<Longrightarrow>
   load_feeds_from_file w fp =
     Inr (map strip (filter (\<lambda>l. \<not> blank_line l \<and> \<not> comment_line l) ls))"
  by (simp add: load_feeds_from_file_def strip_empty_iff strip_comment_iff)

lemma load_feeds_missing: "files w fp = Missing \<Longrightarrow> load_feeds_from_file w fp = Inr []"
  by (simp add: load_feeds_from_file_def)

lemma resolve_feeds_explicit:
  "parse_env_list el \<noteq> [] \<Longrightarrow> resolve_feeds w el fp = Inr (parse_env_list el)"
  by (simp add: resolve_feeds_def Let_def)

lemma resolve_feeds_file:
  "parse_env_list el = [] \<Longrightarrow> resolve_feeds w el fp = load_feeds_from_file w fp"
  by (simp add: resolve_feeds_def Let_def)

lemma get_config_feeds:
  "get_config w = Inr cfg \<Longrightarrow>
   resolve_feeds w (getenv w ''FEED_URLS'' []) (getenv w ''FEEDS_FILE'' ''feeds.example.txt'')
     = Inr (cfg_feeds cfg)"
  unfolding get_config_def Let_def
  by (cases "py_int w (getenv w ''HOURS'' ''24'')";
      cases "resolve_feeds w (getenv w ''FEED_URLS'' [])
               (getenv w ''FEEDS_FILE'' ''feeds.example.txt'')") auto

lemma resolve_feeds_no_fetch:
  "resolve_feeds (w\<lparr>feedparser_parse := fp, urlparse_netloc := un, utcnow := n\<rparr>) a b
     = resolve_feeds w a b"
  by (simp add: resolve_feeds_def load_feeds_from_file_def Let_def)

lemma getenv_no_fetch:
  "getenv (w\<lparr>feedparser_parse := fp, urlparse_netloc := un, utcnow := n\<rparr>) a b = getenv w a b"
  by (simp add: getenv_def)

lemma get_config_no_fetch:
  "get_config (w\<lparr>feedparser_parse := fp, urlparse_netloc := un, utcnow := n\<rparr>) = get_config w"
  unfolding get_config_def getenv_no_fetch resolve_feeds_no_fetch by simp

subsection \<open>The claims\<close>

text \<open>
  C1. When two feeds fail in one run, the loop over the feeds appends two error records,
  and the output holds the first one only: both have the key \<open>(None, None)\<close>, and the
  de-duplication drops the second.
\<close>

theorem failed_feeds_deduplicated:
  "gather example_world [''feedB'', ''feedC''] [] [] 24
     = [FeedError ''Failed to parse feedB: timed out'',
        FeedError ''Failed to parse feedC: timed out'']
   \<and> fetch_jobs example_world [''feedB'', ''feedC''] [] [] 24
     = [FeedError ''Failed to parse feedB: timed out'']"
  by code_simp

text \<open>
  C2. When the output holds an error record among its first 25 items, the one-shot run
  prints the items before it and ends with \<open>KeyError\<close>: the record has no key
  \<open>title\<close>.
\<close>

theorem main_raises_on_error_record:
  "get_config example_world =
     Inr \<lparr> cfg_feeds = [''feedA'', ''feedB''], cfg_keywords = DEFAULT_KEYWORDS,
           cfg_exclude = [], cfg_hours = 24 \<rparr>
   \<and> fetch_jobs example_world [''feedA'', ''feedB''] DEFAULT_KEYWORDS [] 24
     = [Posting example_posting, FeedError ''Failed to parse feedB: timed out'']
   \<and> main example_world True =
     ([Found 2 24 DEFAULT_KEYWORDS,
       ItemLine ''DevOps Engineer opening'' ''jobs.example.com'',
       LinkLine ''https://jobs.example.com/1'',
       PublishedLine ''2026-11-03T11:00:00+00:00''],
      Raised (KeyError ''title''))"
  by code_simp

text \<open>
  C3, as amended. When the timestamp of the entry is a calendar time (the constructor
  \<open>datetime\<close> accepts its fields) and the cutoff \<open>now - hours\<close> is a datetime
  (\<open>hours\<close> is not negative and reaches back no further than the year 1),
  \<open>within_hours\<close> is true exactly when the timestamp is not older than the cutoff.
  The boundary is inclusive: a timestamp exactly \<open>hours\<close> hours old passes, an older
  one does not. With no timestamp \<open>within_hours\<close> is false, and an entry with neither
  \<open>published_parsed\<close> nor \<open>updated_parsed\<close> is dropped by the filter whatever the
  keywords are, and that for every \<open>hours\<close>. The timestamp of an entry is its
  \<open>published_parsed\<close> if it has one, its \<open>updated_parsed\<close> otherwise, and an entry
  that passes the filter has passed \<open>within_hours\<close> with it.
\<close>

theorem within_hours_window:
  assumes "0 \<le> h" and "h * 3600000000 \<le> utcnow w" and "utcnow w < MAX_US"
  shows "within_hours w None h = Inr False
       \<and> (valid_time t \<longrightarrow>
            within_hours w (Some t) h = Inr (utcnow w - h * 3600000000 \<le> datetime_utc t))
       \<and> (valid_time t \<longrightarrow> datetime_utc t = utcnow w - h * 3600000000 \<longrightarrow>
            within_hours w (Some t) h = Inr True)
       \<and> (valid_time t \<longrightarrow> datetime_utc t < utcnow w - h * 3600000000 \<longrightarrow>
            within_hours w (Some t) h = Inr False)
       \<and> (published_parsed e = None \<longrightarrow> updated_parsed e = None \<longrightarrow>
            entry_survives w ks ex any_hours e = Inr False)
       \<and> entry_time e = (case published_parsed e of Some u \<Rightarrow> Some u | None \<Rightarrow> updated_parsed e)
       \<and> (entry_survives w ks ex h e = Inr True \<longrightarrow>
            within_hours w (entry_time e) h = Inr True)"
proof -
  have c1: "within_hours w None h = Inr False"
    by (simp add: within_hours_def)
  have c2: "valid_time t \<longrightarrow>
            within_hours w (Some t) h = Inr (utcnow w - h * 3600000000 \<le> datetime_utc t)"
    by (simp add: within_hours_valid minus_hours_ok [OF assms])
  have c3: "valid_time t \<longrightarrow> datetime_utc t = utcnow w - h * 3600000000 \<longrightarrow>
            within_hours w (Some t) h = Inr True"
    using c2 by simp
  have c4: "valid_time t \<longrightarrow> datetime_utc t < utcnow w - h * 3600000000 \<longrightarrow>
            within_hours w (Some t) h = Inr False"
    using c2 by simp
  have c5: "published_parsed e = None \<longrightarrow> updated_parsed e = None \<longrightarrow>
            entry_survives w ks ex any_hours e = Inr False"
    by (simp add: no_time_excluded entry_time_def)
  have c6: "entry_time e
              = (case published_parsed e of Some u \<Rightarrow> Some u | None \<Rightarrow> updated_parsed e)"
    by (simp add: entry_time_def)
  have c7: "entry_survives w ks ex h e = Inr True \<longrightarrow>
            within_hours w (entry_time e) h = Inr True"
    by (simp add: entry_survives_iff)
  show ?thesis by (intro conjI) (fact c1 c2 c3 c4 c5 c6 c7)+
qed

text \<open>
  At the boundary: an entry published exactly one hour before the clock reading passes
  a window of one hour.
\<close>

theorem within_hours_window_witness:
  "(0::int) \<le> 1 \<and> 1 * 3600000000 \<le> utcnow example_world \<and> utcnow example_world < MAX_US
   \<and> valid_time example_time
   \<and> datetime_utc example_time = utcnow example_world - 1 * 3600000000
   \<and> within_hours example_world (Some example_time) 1 = Inr True
   \<and> within_hours example_world None 1 = Inr False
   \<and> entry_survives example_world [''devops''] [] 1 example_entry = Inr True
   \<and> within_hours example_world (entry_time example_entry) 1 = Inr True"
proof -
  have a: "(0::int) \<le> 1" by simp
  have b: "1 * 3600000000 \<le> utcnow example_world" by code_simp
  have c: "utcnow example_world < MAX_US" by code_simp
  have v: "valid_time example_time" by code_simp
  have d: "datetime_utc example_time = utcnow example_world - 1 * 3600000000" by code_simp
  have s: "entry_survives example_world [''devops''] [] 1 example_entry = Inr True"
    by code_simp
  have "within_hours example_world (Some example_time) 1 = Inr True"
    using within_hours_window [OF a b c, where t = example_time] v d by blast
  moreover have "within_hours example_world None 1 = Inr False"
    using within_hours_window [OF a b c] by blast
  moreover have "within_hours example_world (entry_time example_entry) 1 = Inr True"
    using within_hours_window [OF a b c, where e = example_entry and ks = "[''devops'']"
        and ex = "[]"] s by blast
  ultimately show ?thesis using a b c v d s by blast
qed

text \<open>
  C3 as stated fails in two ways. For a window that reaches back before the year 1 the
  timestamp is not older than the cutoff, and \<open>within_hours\<close> raises
  \<open>OverflowError\<close> instead of returning true. For a timestamp in the year 10000 the
  timestamp is present and later than the cutoff, and \<open>within_hours\<close> raises
  \<open>ValueError\<close>.
\<close>

theorem within_hours_counterexample:
  "(0::int) \<le> 20000000
   \<and> utcnow example_world - 20000000 * 3600000000 \<le> datetime_utc example_time
   \<and> within_hours example_world (Some example_time) 20000000
       = Inl (OverflowError ''date value out of range'')
   \<and> (0::int) \<le> 24
   \<and> utcnow example_world - 24 * 3600000000
       \<le> datetime_utc (example_time\<lparr>tm_year := 10000\<rparr>)
   \<and> within_hours example_world (Some (example_time\<lparr>tm_year := 10000\<rparr>)) 24
       = Inl (ValueError ''year 10000 is out of range'')"
proof -
  have a: "(0::int) \<le> 20000000" by simp
  have b: "utcnow example_world - 20000000 * 3600000000 \<le> datetime_utc example_time"
    by code_simp
  have c: "within_hours example_world (Some example_time) 20000000
             = Inl (OverflowError ''date value out of range'')"
    by code_simp
  have d: "(0::int) \<le> 24" by simp
  have e: "utcnow example_world - 24 * 3600000000
             \<le> datetime_utc (example_time\<lparr>tm_year := 10000\<rparr>)"
    by code_simp
  have f: "within_hours example_world (Some (example_time\<lparr>tm_year := 10000\<rparr>)) 24
             = Inl (ValueError ''year 10000 is out of range'')"
    by code_simp
  show ?thesis by (intro conjI) (fact a b c d e f)+
qed



text \<open>
  C5. The sort puts the results in descending order of the key \<open>published\<close> (the
  empty string for a result with no \<open>published\<close> value or an empty one); it permutes
  them; the results with an empty key come last, in the order they had; and results of
  equal key keep their order. \<open>fetch_jobs\<close> returns the sorted de-duplicated results.
  The key of a posting is the ISO format of its timestamp, and ISO formats of calendar
  times are ordered as the times are: descending key is most recent first.
\<close>

theorem sort_newest_first_order:
  "sorted_wrt (\<lambda>a b. published_key b \<le> published_key a) (sort_newest_first rs)
   \<and> mset (sort_newest_first rs) = mset rs
   \<and> sort_newest_first rs =
       sort_newest_first (filter (\<lambda>r. published_key r \<noteq> []) rs)
         @ filter (\<lambda>r. published_key r = []) rs
   \<and> (\<forall>k. filter (\<lambda>r. published_key r = k) (sort_newest_first rs)
            = filter (\<lambda>r. published_key r = k) rs)
   \<and> (published_key r = [] \<longleftrightarrow> get_published r = None \<or> get_published r = Some [])
   \<and> fetch_jobs w fs ks ex h = sort_newest_first (dedupe {} (gather w fs ks ex h))
   \<and> (valid_time a \<longrightarrow> valid_time b \<longrightarrow>
        published p = Some (isoformat a) \<longrightarrow> published q = Some (isoformat b) \<longrightarrow>
        (published_key (Posting p) \<le> published_key (Posting q))
          = (datetime_utc a \<le> datetime_utc b))"
proof -
  have "sort_newest_first rs =
          filter (\<lambda>r. published_key r \<noteq> []) (sort_newest_first rs)
            @ filter (\<lambda>r. published_key r = []) (sort_newest_first rs)"
    using sort_newest_first_sorted by (rule sorted_split)
  then have "sort_newest_first rs =
       sort_newest_first (filter (\<lambda>r. published_key r \<noteq> []) rs)
         @ filter (\<lambda>r. published_key r = []) rs"
    by (simp add: sort_stable filter_sort_newest_first)
  moreover have "published_key r = [] \<longleftrightarrow> get_published r = None \<or> get_published r = Some []"
    by (simp add: published_key_def split: option.splits)
  moreover have "valid_time a \<longrightarrow> valid_time b \<longrightarrow>
        published p = Some (isoformat a) \<longrightarrow> published q = Some (isoformat b) \<longrightarrow>
        (published_key (Posting p) \<le> published_key (Posting q))
          = (datetime_utc a \<le> datetime_utc b)"
    by (simp add: published_key_def isoformat_order)
  ultimately show ?thesis
    using sort_newest_first_sorted [of rs] mset_sort_newest_first [of rs] sort_stable [of _ rs]
    by (simp add: fetch_jobs_def)
qed

text \<open>
  In the sample run, a posting published at 12:00 sorts before one published at 11:00 of
  the same day.
\<close>

theorem sort_newest_first_order_witness:
  "valid_time example_time \<and> valid_time (example_time\<lparr>tm_hour := 12\<rparr>)
   \<and> published example_posting = Some (isoformat example_time)
   \<and> datetime_utc example_time \<le> datetime_utc (example_time\<lparr>tm_hour := 12\<rparr>)
   \<and> published_key (Posting example_posting)
       \<le> published_key (Posting (example_posting
             \<lparr>published := Some (isoformat (example_time\<lparr>tm_hour := 12\<rparr>))\<rparr>))"
proof -
  have a: "valid_time example_time" by code_simp
  have b: "valid_time (example_time\<lparr>tm_hour := 12\<rparr>)" by code_simp
  have c: "published example_posting = Some (isoformat example_time)" by code_simp
  have d: "published (example_posting
             \<lparr>published := Some (isoformat (example_time\<lparr>tm_hour := 12\<rparr>))\<rparr>)
           = Some (isoformat (example_time\<lparr>tm_hour := 12\<rparr>))" by simp
  have e: "datetime_utc example_time \<le> datetime_utc (example_time\<lparr>tm_hour := 12\<rparr>)"
    by code_simp
  show ?thesis
    using a b c d e
      sort_newest_first_order [where a = example_time and b = "example_time\<lparr>tm_hour := 12\<rparr>"
        and p = example_posting
        and q = "example_posting
             \<lparr>published := Some (isoformat (example_time\<lparr>tm_hour := 12\<rparr>))\<rparr>"]
    by blast
qed

text \<open>
  C6. The de-duplication keeps at most one result for each key \<open>(link, title)\<close>, keeps
  the results in their order, and keeps of each key the first result that has it; the
  same holds of the sorted output. Two postings have the same key exactly when they have
  the same link and the same title.
\<close>

theorem dedupe_first_wins:
  "distinct (map item_key (dedupe {} rs))
   \<and> subseq (dedupe {} rs) rs
   \<and> (\<forall>k. filter (\<lambda>r. item_key r = k) (dedupe {} rs)
            = (case find (\<lambda>r. item_key r = k) rs of None \<Rightarrow> [] | Some r \<Rightarrow> [r]))
   \<and> (\<forall>k. filter (\<lambda>r. item_key r = k) (sort_newest_first (dedupe {} rs))
            = (case find (\<lambda>r. item_key r = k) rs of None \<Rightarrow> [] | Some r \<Rightarrow> [r]))
   \<and> (item_key (Posting p) = item_key (Posting q) \<longleftrightarrow> link p = link q \<and> title p = title q)"
proof -
  have f: "\<And>k. filter (\<lambda>r. item_key r = k) (dedupe {} rs)
            = (case find (\<lambda>r. item_key r = k) rs of None \<Rightarrow> [] | Some r \<Rightarrow> [r])"
    by (rule dedupe_filter_key) simp
  have "\<And>k. filter (\<lambda>r. item_key r = k) (sort_newest_first (dedupe {} rs))
            = (case find (\<lambda>r. item_key r = k) rs of None \<Rightarrow> [] | Some r \<Rightarrow> [r])"
  proof -
    fix k
    show "filter (\<lambda>r. item_key r = k) (sort_newest_first (dedupe {} rs))
            = (case find (\<lambda>r. item_key r = k) rs of None \<Rightarrow> [] | Some r \<Rightarrow> [r])"
      unfolding filter_sort_newest_first f
      by (cases "find (\<lambda>r. item_key r = k) rs") (simp_all add: sort_newest_first_def)
  qed
  then show ?thesis using f dedupe_distinct [of "{}" rs] dedupe_subseq [of "{}" rs]
    by (simp add: item_key_def)
qed

text \<open>
  C7. When the explicit list has an entry (after trimming, empty entries dropped), the
  feeds are that list and the file system is not consulted. Otherwise the feeds are the
  trimmed lines of the feeds file that are neither blank nor comments, and none when the
  file does not exist. \<open>get_config\<close> returns the feeds resolved in this way.
\<close>

theorem resolve_feeds_precedence:
  "(parse_env_list el \<noteq> [] \<longrightarrow>
      resolve_feeds w el fp = Inr (filter (\<lambda>x. x \<noteq> []) (map strip (split CHR '','' el)))
      \<and> resolve_feeds (w\<lparr>files := other\<rparr>) el fp = resolve_feeds w el fp)
   \<and> (parse_env_list el = [] \<longrightarrow> fp \<noteq> [] \<longrightarrow> files w fp = Lines ls \<longrightarrow>
      resolve_feeds w el fp =
        Inr (map strip (filter (\<lambda>l. \<not> blank_line l \<and> \<not> comment_line l) ls)))
   \<and> (parse_env_list el = [] \<longrightarrow> files w fp = Missing \<longrightarrow> resolve_feeds w el fp = Inr [])
   \<and> (get_config w = Inr cfg \<longrightarrow>
      resolve_feeds w (getenv w ''FEED_URLS'' []) (getenv w ''FEEDS_FILE'' ''feeds.example.txt'')
        = Inr (cfg_feeds cfg))"
proof (intro conjI impI)
  assume n: "parse_env_list el \<noteq> []"
  show "resolve_feeds w el fp = Inr (filter (\<lambda>x. x \<noteq> []) (map strip (split CHR '','' el)))"
    using resolve_feeds_explicit [OF n, of w fp] parse_env_list_eq [of el] by simp
  show "resolve_feeds (w\<lparr>files := other\<rparr>) el fp = resolve_feeds w el fp"
    using resolve_feeds_explicit [OF n] by simp
next
  assume "parse_env_list el = []" "fp \<noteq> []" "files w fp = Lines ls"
  then show "resolve_feeds w el fp =
        Inr (map strip (filter (\<lambda>l. \<not> blank_line l \<and> \<not> comment_line l) ls))"
    by (simp add: resolve_feeds_file load_feeds_lines)
next
  assume "parse_env_list el = []" "files w fp = Missing"
  then show "resolve_feeds w el fp = Inr []"
    by (simp add: resolve_feeds_file load_feeds_missing)
next
  assume "get_config w = Inr cfg"
  then show "resolve_feeds w (getenv w ''FEED_URLS'' [])
               (getenv w ''FEEDS_FILE'' ''feeds.example.txt'') = Inr (cfg_feeds cfg)"
    by (rule get_config_feeds)
qed

text \<open>
  In the sample run: an explicit list of two feeds, a list with no entry that falls back
  to the feeds file, and a feeds file that does not exist.
\<close>

theorem resolve_feeds_precedence_witness:
  "parse_env_list ''feedA, feedB'' \<noteq> []
   \<and> resolve_feeds example_world ''feedA, feedB'' ''feeds.txt'' = Inr [''feedA'', ''feedB'']
   \<and> parse_env_list '' , '' = [] \<and> ''feeds.txt'' \<noteq> []
   \<and> files example_world ''feeds.txt''
       = Lines [''# my feeds'' @ [CHR 0x0A], [CHR 0x0A], '' https://a.example/rss'' @ [CHR 0x0A]]
   \<and> resolve_feeds example_world '' , '' ''feeds.txt'' = Inr [''https://a.example/rss'']
   \<and> files example_world ''none.txt'' = Missing
   \<and> resolve_feeds example_world '' , '' ''none.txt'' = Inr []"
proof -
  have a: "parse_env_list ''feedA, feedB'' \<noteq> []" by code_simp
  have a': "filter (\<lambda>x. x \<noteq> []) (map strip (split CHR '','' ''feedA, feedB''))
              = [''feedA'', ''feedB'']" by code_simp
  have b: "parse_env_list '' , '' = []" by code_simp
  have c: "''feeds.txt'' \<noteq> []" by simp
  have d: "files example_world ''feeds.txt''
       = Lines [''# my feeds'' @ [CHR 0x0A], [CHR 0x0A], '' https://a.example/rss'' @ [CHR 0x0A]]"
    by (simp add: example_world_def)
  have d': "map strip (filter (\<lambda>l. \<not> blank_line l \<and> \<not> comment_line l)
              [''# my feeds'' @ [CHR 0x0A], [CHR 0x0A], '' https://a.example/rss'' @ [CHR 0x0A]])
            = [''https://a.example/rss'']" by code_simp
  have e: "files example_world ''none.txt'' = Missing"
    by (simp add: example_world_def)
  have "resolve_feeds example_world ''feedA, feedB'' ''feeds.txt'' = Inr [''feedA'', ''feedB'']"
    using resolve_feeds_precedence [where w = example_world and el = "''feedA, feedB''"
        and fp = "''feeds.txt''"] a a' by simp
  moreover have "resolve_feeds example_world '' , '' ''feeds.txt'' = Inr [''https://a.example/rss'']"
    using resolve_feeds_precedence [where w = example_world and el = "'' , ''"
        and fp = "''feeds.txt''" and ls = "[''# my feeds'' @ [CHR 0x0A], [CHR 0x0A],
          '' https://a.example/rss'' @ [CHR 0x0A]]"] b c d d' by simp
  moreover have "resolve_feeds example_world '' , '' ''none.txt'' = Inr []"
    using resolve_feeds_precedence [where w = example_world and el = "'' , ''"
        and fp = "''none.txt''"] b e by blast
  ultimately show ?thesis using a b c d e by blast
qed




text \<open>
  C9. With no feeds configured, the HTTP handler answers with status 400 and an error
  message, and the one-shot run prints one message and returns; neither depends on the
  feed parser, the URL parser or the clock, so nothing is fetched.
\<close>

theorem no_feeds_configured:
  assumes "get_config w = Inr cfg" and "cfg_feeds cfg = []"
  shows "jobs w q_hours q_keywords q_exclude =
           Inr (JSONResponse 400
                  ''No feeds configured. Set FEED_URLS or provide feeds.example.txt.'')
       \<and> jobs (w\<lparr>feedparser_parse := fp, urlparse_netloc := un, utcnow := n\<rparr>)
              q_hours q_keywords q_exclude = jobs w q_hours q_keywords q_exclude
       \<and> main w True =
           ([NoFeeds ''No feeds configured. Set FEED_URLS or provide feeds.example.txt''],
            Returned)
       \<and> main (w\<lparr>feedparser_parse := fp, urlparse_netloc := un, utcnow := n\<rparr>) True
           = main w True"
  unfolding jobs_def main_def get_config_no_fetch using assms by (simp add: Let_def)

text \<open>
  In the sample run with an empty environment no feed is configured.
\<close>

theorem no_feeds_configured_witness:
  "get_config (example_world\<lparr>environ := Map.empty\<rparr>)
     = Inr \<lparr> cfg_feeds = [], cfg_keywords = DEFAULT_KEYWORDS, cfg_exclude = [], cfg_hours = 24 \<rparr>
   \<and> cfg_feeds \<lparr> cfg_feeds = [], cfg_keywords = DEFAULT_KEYWORDS, cfg_exclude = [],
                   cfg_hours = 24 \<rparr> = []
   \<and> jobs (example_world\<lparr>environ := Map.empty\<rparr>) None None None
       = Inr (JSONResponse 400
                ''No feeds configured. Set FEED_URLS or provide feeds.example.txt.'')
   \<and> main (example_world\<lparr>environ := Map.empty\<rparr>) True
       = ([NoFeeds ''No feeds configured. Set FEED_URLS or provide feeds.example.txt''],
          Returned)"
proof -
  have a: "get_config (example_world\<lparr>environ := Map.empty\<rparr>)
     = Inr \<lparr> cfg_feeds = [], cfg_keywords = DEFAULT_KEYWORDS, cfg_exclude = [], cfg_hours = 24 \<rparr>"
    by code_simp
  have b: "cfg_feeds \<lparr> cfg_feeds = [], cfg_keywords = DEFAULT_KEYWORDS, cfg_exclude = [],
                   cfg_hours = 24 \<rparr> = []"
    by simp
  show ?thesis
    using a b no_feeds_configured [OF a b, where q_hours = None and q_keywords = None
        and q_exclude = None]
    by blast
qed

text \<open>
  C10. Every posting in the output of \<open>fetch_jobs\<close> has a \<open>published\<close> value, the
  ISO format of a timestamp of its entry, which is a calendar time.
\<close>

theorem posting_has_published:
  assumes "Posting p \<in> set (fetch_jobs w fs ks ex h)"
  shows "published p \<noteq> None \<and> published p \<noteq> Some []
       \<and> (\<exists>t. valid_time t \<and> published p = Some (isoformat t))"
proof -
  obtain t where "valid_time t \<and> published p = Some (isoformat t)"
    using fetch_jobs_published [OF assms] ..
  then show ?thesis using isoformat_not_empty [of t] by auto
qed

text \<open>
  In the sample run the posting of \<open>feedA\<close> is in the output.
\<close>

theorem posting_has_published_witness:
  "Posting example_posting
     \<in> set (fetch_jobs example_world [''feedA'', ''feedB''] [''devops''] [] 24)
   \<and> published example_posting \<noteq> None \<and> published example_posting \<noteq> Some []"
proof -
  have a: "Posting example_posting
     \<in> set (fetch_jobs example_world [''feedA'', ''feedB''] [''devops''] [] 24)"
    by code_simp
  show ?thesis using a posting_has_published [OF a] by blast
qed

end
